theory Spec2Isabelle
  imports Complex_Main "HOL-Library.AList"
begin

section \<open>JavaScript values and the runtime\<close>

text \<open>
  A value read from a request: what \<^verbatim>\<open>JSON.parse\<close> or the query-string parser
  yields. Numbers are exact rationals (every finite double is one); the rounding of
  IEEE doubles is not modelled. A property that an object does not have reads as
  \<^verbatim>\<open>undefined\<close>, which is \<open>None\<close> below.
\<close>

datatype json =
    JNull
  | JBool bool
  | JNum rat
  | JStr string
  | JArr "json list"
  | JObj "(string \<times> json) list"

text \<open>A thrown error, identified by its \<^verbatim>\<open>name\<close> as the catch blocks read it.\<close>

datatype js_error = Error (err_name: string)

datatype jsdate = Date int | Invalid_Date

datatype regexp = RegExp (re_source: string) (re_flags: string)

text \<open>
  A value as the routes hand it to the database or find it there: a JSON value, a
  date, or the identifier of a document. A query maps a field name to a condition: a
  plain value (\<^verbatim>\<open>query[key] = value\<close>), a regular expression, or an object of
  operators such as \<^verbatim>\<open>{ $gte: date, $lt: nextDay }\<close>. \<open>Or\<close> is the \<^verbatim>\<open>$or\<close>
  array of one-field regular-expression clauses that the list route adds for a
  search text.
\<close>

datatype jsval = J json | D jsdate | Oid string

datatype qval =
    Val json
  | Re regexp
  | Ops "(string \<times> jsval) list"
  | Or "(string \<times> regexp) list"

type_synonym query = "(string \<times> qval) list"

section \<open>Documents, replies and requests\<close>

text \<open>
  A stored document maps field names to values; a field that is absent reads as
  \<^verbatim>\<open>null\<close>. The database holds the users and the leads.
\<close>

type_synonym doc = "string \<rightharpoonup> jsval"

record store =
  users :: "doc list"
  leads :: "doc list"

text \<open>
  A lead as the routes send it, the creator reference populated, and the pagination
  object of the list route.
\<close>

datatype populated = Populated (lead_doc: doc) (creator: "(string \<times> jsval) list option")

record pagination =
  currentPage :: int
  totalPages :: int
  totalLeads :: nat
  hasNextPage :: bool
  hasPrevPage :: bool
  limit :: int

text \<open>
  A handler either sends a reply with a status and a JSON body, or passes an error to
  \<^verbatim>\<open>next\<close>, which hands it to the error middleware.
\<close>

datatype stats =
  Stats (stats_totalLeads: nat) (statusStats: "(jsval \<times> nat) list")
        (sourceStats: "(jsval \<times> nat) list") (avgScore: rat)

datatype body =
    ErrorMsg string
  | ErrorDetails string "string list"
  | Message string
  | StatsBody stats
  | ListBody "populated list" pagination
  | LeadBody string populated
  | UserBody string doc
  | MeBody doc

datatype reply = Status nat body | Next js_error

text \<open>
  The query parameters of \<^verbatim>\<open>router.get('/')\<close>. For \<^verbatim>\<open>page\<close> and
  \<^verbatim>\<open>limit\<close> the model keeps whether the parameter is absent, is not an integer
  literal (\<^verbatim>\<open>isInt\<close> refuses it), or is an integer literal, with the integer that the
  literal denotes. \<^verbatim>\<open>filters\<close> is a string of JSON or an object already parsed from
  the query string.
\<close>

datatype qparam = Absent | NotInt | IntLit int

record list_request =
  q_page :: qparam
  q_limit :: qparam
  q_search :: "string option"
  q_sortBy :: "string option"
  q_sortOrder :: "string option"
  q_filters :: "json option"

text \<open>
  The builtins of the JavaScript runtime and the library behaviour that the routes
  rely on and that is not part of this repository are parameters of the model:
  \<^item> \<open>Number_toString\<close>: the string form of a number;
  \<^item> \<open>pattern_ok\<close>: whether the \<^verbatim>\<open>RegExp\<close> constructor accepts a pattern
    (it throws a \<^verbatim>\<open>SyntaxError\<close> otherwise);
  \<^item> \<open>Date_parse\<close>: \<^verbatim>\<open>Date.parse\<close>, the time value in milliseconds that a string
    denotes, \<open>None\<close> for \<^verbatim>\<open>NaN\<close>;
  \<^item> \<open>RegExp_test\<close>: whether a regular expression matches somewhere in a string;
  \<^item> \<open>JSON_parse\<close>: \<^verbatim>\<open>JSON.parse\<close>, which throws on text that is not JSON;
  \<^item> \<open>cast_error\<close>: the error with which the Lead model rejects a query whose
    values it cannot cast to the types of its schema, if it rejects it;
  \<^item> \<open>beyond_safe_integers\<close>: the reply of the list route to a request whose
    \<^verbatim>\<open>page\<close> is an integer literal beyond \<open>2 ^ 53\<close> in magnitude. There
    \<^verbatim>\<open>parseInt\<close> yields a rounded double or \<^verbatim>\<open>Infinity\<close>, not the integer of
    the literal, the skip is a rounded product, and the database is handed a skip
    that it may refuse.
\<close>

record runtime =
  Number_toString :: "rat \<Rightarrow> string"
  pattern_ok :: "string \<Rightarrow> bool"
  Date_parse :: "string \<Rightarrow> rat option"
  RegExp_test :: "regexp \<Rightarrow> string \<Rightarrow> bool"
  JSON_parse :: "string \<Rightarrow> js_error + json"
  cast_error :: "query \<Rightarrow> js_error option"
  beyond_safe_integers :: "store \<Rightarrow> list_request \<Rightarrow> reply"

text \<open>Truthiness (\<^verbatim>\<open>!x\<close> is its negation) and \<^verbatim>\<open>typeof\<close>.\<close>

fun truthy :: "json option \<Rightarrow> bool" where
  "truthy None = False"
| "truthy (Some JNull) = False"
| "truthy (Some (JBool b)) = b"
| "truthy (Some (JNum n)) = (n \<noteq> 0)"
| "truthy (Some (JStr s)) = (s \<noteq> [])"
| "truthy (Some (JArr xs)) = True"
| "truthy (Some (JObj kvs)) = True"

fun typeof :: "json \<Rightarrow> string" where
  "typeof JNull = ''object''"
| "typeof (JBool b) = ''boolean''"
| "typeof (JNum n) = ''number''"
| "typeof (JStr s) = ''string''"
| "typeof (JArr xs) = ''object''"
| "typeof (JObj kvs) = ''object''"

fun Array_isArray :: "json \<Rightarrow> bool" where
  "Array_isArray (JArr xs) = True"
| "Array_isArray v = False"

text \<open>
  Reading a named property. Only \<^verbatim>\<open>operator\<close>, \<^verbatim>\<open>value\<close> and \<^verbatim>\<open>value2\<close>
  are read this way, names that arrays and primitives do not carry.
\<close>

fun get_prop :: "json \<Rightarrow> string \<Rightarrow> json option" where
  "get_prop (JObj kvs) k = map_of kvs k"
| "get_prop v k = None"

text \<open>
  The conversion of a value to a string. An array joins the strings of its elements
  with commas, \<^verbatim>\<open>null\<close> counting as the empty string. An object parsed from JSON
  inherits \<^verbatim>\<open>toString\<close>, which gives \<^verbatim>\<open>[object Object]\<close>, unless it has a
  property of that name: the property is not a function, and the conversion throws a
  \<^verbatim>\<open>TypeError\<close>. The conversion of an object or an array to a primitive, which
  \<^verbatim>\<open>new Date\<close> asks for, gives the same.
\<close>

fun ToString :: "runtime \<Rightarrow> json \<Rightarrow> js_error + string"
  and join_elements :: "runtime \<Rightarrow> json list \<Rightarrow> js_error + string" where
  "ToString rt JNull = Inr ''null''"
| "ToString rt (JBool b) = Inr (if b then ''true'' else ''false'')"
| "ToString rt (JNum n) = Inr (Number_toString rt n)"
| "ToString rt (JStr s) = Inr s"
| "ToString rt (JArr xs) = join_elements rt xs"
| "ToString rt (JObj kvs) =
     (if map_of kvs ''toString'' \<noteq> None then Inl (Error ''TypeError'')
      else Inr ''[object Object]'')"
| "join_elements rt [] = Inr []"
| "join_elements rt (x # xs) =
     (case (case x of JNull \<Rightarrow> Inr [] | _ \<Rightarrow> ToString rt x) of
        Inl e \<Rightarrow> Inl e
      | Inr s \<Rightarrow>
          (case xs of
             [] \<Rightarrow> Inr s
           | y # ys \<Rightarrow>
               (case join_elements rt xs of
                  Inl e \<Rightarrow> Inl e
                | Inr t \<Rightarrow> Inr (s @ '','' @ t))))"

text \<open>
  \<^verbatim>\<open>new Date(x)\<close> for a number: the time value is clipped to the range of
  \<^verbatim>\<open>Date\<close> (8.64e15 ms either side of the epoch) and truncated to an integer.
\<close>

definition TimeClip :: "rat option \<Rightarrow> jsdate" where
  "TimeClip x =
     (case x of
        None \<Rightarrow> Invalid_Date
      | Some t \<Rightarrow>
          if \<bar>t\<bar> > 8640000000000000 then Invalid_Date
          else Date (if t \<ge> 0 then \<lfloor>t\<rfloor> else \<lceil>t\<rceil>))"

text \<open>
  \<^verbatim>\<open>new Date(v)\<close> for a value: a string is parsed, \<^verbatim>\<open>null\<close> and the booleans
  count as the numbers 0 and 1, an object or an array is parsed as its string.
\<close>

definition Date_new :: "runtime \<Rightarrow> json \<Rightarrow> js_error + jsdate" where
  "Date_new rt v =
     (case v of
        JNum n \<Rightarrow> Inr (TimeClip (Some n))
      | JNull \<Rightarrow> Inr (TimeClip (Some 0))
      | JBool b \<Rightarrow> Inr (TimeClip (Some (if b then 1 else 0)))
      | JStr s \<Rightarrow> Inr (TimeClip (Date_parse rt s))
      | _ \<Rightarrow> (case ToString rt v of
                Inl e \<Rightarrow> Inl e
              | Inr s \<Rightarrow> Inr (TimeClip (Date_parse rt s))))"

fun getTime :: "jsdate \<Rightarrow> rat option" where
  "getTime (Date t) = Some (of_int t)"
| "getTime Invalid_Date = None"

text \<open>\<^verbatim>\<open>new RegExp(v, flags)\<close>: the pattern is the string of the value.\<close>

definition RegExp_new :: "runtime \<Rightarrow> json \<Rightarrow> string \<Rightarrow> js_error + regexp" where
  "RegExp_new rt v fl =
     (case ToString rt v of
        Inl e \<Rightarrow> Inl e
      | Inr src \<Rightarrow>
          if pattern_ok rt src then Inr (RegExp src fl) else Inl (Error ''SyntaxError''))"

section \<open>The filter compiler\<close>

text \<open>\<^verbatim>\<open>buildFilterQuery\<close> of \<^verbatim>\<open>routes/leads.js\<close>.\<close>

text \<open>\<^verbatim>\<open>query[key] = c\<close>: an existing key keeps its place, a new one goes last.\<close>

definition assign :: "string \<Rightarrow> qval \<Rightarrow> query \<Rightarrow> query" where
  "assign key c q = AList.update key c q"

definition op_is :: "json option \<Rightarrow> string \<Rightarrow> bool" where
  "op_is operator s = (operator = Some (JStr s))"

text \<open>Sequencing: an error thrown by the first computation ends the function.\<close>

definition then_do :: "js_error + 'a \<Rightarrow> ('a \<Rightarrow> js_error + 'b) \<Rightarrow> js_error + 'b" where
  "then_do m f = (case m of Inl e \<Rightarrow> Inl e | Inr x \<Rightarrow> f x)"

definition text_case :: "runtime \<Rightarrow> string \<Rightarrow> json option \<Rightarrow> json \<Rightarrow> query \<Rightarrow> js_error + query" where
  "text_case rt key operator v q =
     (let q1 = (if op_is operator ''equals'' then assign key (Val v) q else q)
      in if op_is operator ''contains''
         then (case RegExp_new rt v ''i'' of
                 Inl e \<Rightarrow> Inl e
               | Inr r \<Rightarrow> Inr (assign key (Re r) q1))
         else Inr q1)"

definition enum_case :: "string \<Rightarrow> json option \<Rightarrow> json \<Rightarrow> query \<Rightarrow> query" where
  "enum_case key operator v q =
     (let q1 = (if op_is operator ''equals'' then assign key (Val v) q else q)
      in if op_is operator ''in'' \<and> Array_isArray v
         then assign key (Ops [(''$in'', J v)]) q1 else q1)"

definition numeric_case :: "string \<Rightarrow> json option \<Rightarrow> json \<Rightarrow> json option \<Rightarrow> query \<Rightarrow> query" where
  "numeric_case key operator v value2 q =
     (let q1 = (if op_is operator ''equals'' then assign key (Val v) q else q);
          q2 = (if op_is operator ''gt'' then assign key (Ops [(''$gt'', J v)]) q1 else q1);
          q3 = (if op_is operator ''lt'' then assign key (Ops [(''$lt'', J v)]) q2 else q2)
      in case value2 of
           Some v2 \<Rightarrow>
             if op_is operator ''between''
             then assign key (Ops [(''$gte'', J v), (''$lte'', J v2)]) q3 else q3
         | None \<Rightarrow> q3)"

definition temporal_case ::
    "runtime \<Rightarrow> string \<Rightarrow> json option \<Rightarrow> json \<Rightarrow> json option \<Rightarrow> query \<Rightarrow> js_error + query" where
  "temporal_case rt key operator v value2 q =
     then_do (if op_is operator ''on''
              then then_do (Date_new rt v) (\<lambda>date.
                     let nextDay = TimeClip (map_option (\<lambda>t. t + 24 * 60 * 60 * 1000) (getTime date))
                     in Inr (assign key (Ops [(''$gte'', D date), (''$lt'', D nextDay)]) q))
              else Inr q) (\<lambda>q1.
     then_do (if op_is operator ''before''
              then then_do (Date_new rt v) (\<lambda>d. Inr (assign key (Ops [(''$lt'', D d)]) q1))
              else Inr q1) (\<lambda>q2.
     then_do (if op_is operator ''after''
              then then_do (Date_new rt v) (\<lambda>d. Inr (assign key (Ops [(''$gt'', D d)]) q2))
              else Inr q2) (\<lambda>q3.
     case value2 of
       Some v2 \<Rightarrow>
         if op_is operator ''between''
         then then_do (Date_new rt v) (\<lambda>d.
              then_do (Date_new rt v2) (\<lambda>d2.
                Inr (assign key (Ops [(''$gte'', D d), (''$lte'', D d2)]) q3)))
         else Inr q3
     | None \<Rightarrow> Inr q3)))"

definition boolean_case :: "string \<Rightarrow> json option \<Rightarrow> json \<Rightarrow> query \<Rightarrow> query" where
  "boolean_case key operator v q =
     (if op_is operator ''equals''
      then assign key (Val (JBool (v = JStr ''true'' \<or> v = JBool True))) q else q)"

text \<open>The \<^verbatim>\<open>case\<close> labels of the \<^verbatim>\<open>switch (key)\<close>, group by group.\<close>

definition text_fields :: "string list" where
  "text_fields = [''email'', ''company'', ''city'', ''state'']"

definition enum_fields :: "string list" where
  "enum_fields = [''source'', ''status'']"

definition numeric_fields :: "string list" where
  "numeric_fields = [''score'', ''leadValue'']"

definition temporal_fields :: "string list" where
  "temporal_fields = [''createdAt'', ''lastActivityAt'']"

text \<open>The body of the \<^verbatim>\<open>forEach\<close> callback, for one key and the entry stored under it.\<close>

definition filter_step :: "runtime \<Rightarrow> string \<Rightarrow> json \<Rightarrow> query \<Rightarrow> js_error + query" where
  "filter_step rt key flt q =
     (if \<not> truthy (Some flt) \<or> typeof flt \<noteq> ''object'' then Inr q
      else
        let operator = get_prop flt ''operator'';
            val = get_prop flt ''value'';
            value2 = get_prop flt ''value2''
        in case val of
             None \<Rightarrow> Inr q
           | Some v \<Rightarrow>
               if \<not> truthy operator then Inr q
               else if key \<in> set text_fields
                 then text_case rt key operator v q
               else if key \<in> set enum_fields
                 then Inr (enum_case key operator v q)
               else if key \<in> set numeric_fields
                 then Inr (numeric_case key operator v value2 q)
               else if key \<in> set temporal_fields
                 then temporal_case rt key operator v value2 q
               else if key = ''isQualified''
                 then Inr (boolean_case key operator v q)
               else Inr q)"

text \<open>
  \<^verbatim>\<open>Object.keys(filters)\<close> paired with \<^verbatim>\<open>filters[key]\<close>. It throws a
  \<^verbatim>\<open>TypeError\<close> on \<^verbatim>\<open>null\<close>; an array or a string has its indices as keys; a
  number or a boolean has none. The keys of an object are distinct.
\<close>

fun digit_char :: "nat \<Rightarrow> char" where
  "digit_char n = char_of (48 + n)"

fun show_nat :: "nat \<Rightarrow> string" where
  "show_nat n = (if n < 10 then [digit_char n] else show_nat (n div 10) @ [digit_char (n mod 10)])"

declare show_nat.simps [simp del]

definition index_keys :: "nat \<Rightarrow> string list" where
  "index_keys n = map show_nat [0..<n]"

fun own_entries :: "json \<Rightarrow> js_error + (string \<times> json) list" where
  "own_entries JNull = Inl (Error ''TypeError'')"
| "own_entries (JObj kvs) = Inr kvs"
| "own_entries (JArr xs) = Inr (zip (index_keys (length xs)) xs)"
| "own_entries (JStr s) = Inr (zip (index_keys (length s)) (map (\<lambda>c. JStr [c]) s))"
| "own_entries (JBool b) = Inr []"
| "own_entries (JNum n) = Inr []"

text \<open>The \<^verbatim>\<open>forEach\<close> loop: an error thrown by the callback ends it.\<close>

fun run_entries :: "runtime \<Rightarrow> (string \<times> json) list \<Rightarrow> query \<Rightarrow> js_error + query" where
  "run_entries rt [] q = Inr q"
| "run_entries rt ((key, flt) # es) q =
     (case filter_step rt key flt q of
        Inl e \<Rightarrow> Inl e
      | Inr q' \<Rightarrow> run_entries rt es q')"

definition buildFilterQuery :: "runtime \<Rightarrow> json \<Rightarrow> js_error + query" where
  "buildFilterQuery rt filters =
     (case own_entries filters of
        Inl e \<Rightarrow> Inl e
      | Inr es \<Rightarrow> run_entries rt es [])"

section \<open>The collections\<close>

text \<open>
  The database is outside the repository: the functions of this section
  give, on a list of documents, the MongoDB operations that the routes call, for
  the queries that the routes build. Values are compared with stored values of the
  same type, and a bound that is not a valid date matches nothing; a query value
  that is itself an object or an array is outside this fragment. Failures of the
  connection are not modelled.
\<close>

definition field :: "doc \<Rightarrow> string \<Rightarrow> jsval" where
  "field d k = (case d k of None \<Rightarrow> J JNull | Some v \<Rightarrow> v)"

fun eq_match :: "json \<Rightarrow> jsval \<Rightarrow> bool" where
  "eq_match JNull x = (x = J JNull)"
| "eq_match (JBool b) x = (x = J (JBool b))"
| "eq_match (JNum n) x = (x = J (JNum n))"
| "eq_match (JStr s) x = (x = J (JStr s))"
| "eq_match (JArr xs) x = False"
| "eq_match (JObj kvs) x = False"

definition rel :: "string \<Rightarrow> 'a::linorder \<Rightarrow> 'a \<Rightarrow> bool" where
  "rel opr x b =
     (if opr = ''$gt'' then b < x
      else if opr = ''$gte'' then b \<le> x
      else if opr = ''$lt'' then x < b
      else if opr = ''$lte'' then x \<le> b
      else False)"

fun cmp_match :: "string \<Rightarrow> jsval \<Rightarrow> jsval \<Rightarrow> bool" where
  "cmp_match opr (J (JNum b)) (J (JNum x)) = rel opr x b"
| "cmp_match opr (D (Date b)) (D (Date x)) = rel opr x b"
| "cmp_match opr b x = False"

definition op_match :: "string \<Rightarrow> jsval \<Rightarrow> jsval \<Rightarrow> bool" where
  "op_match opr b x =
     (if opr = ''$in''
      then (case b of J (JArr vs) \<Rightarrow> list_ex (\<lambda>v. eq_match v x) vs | _ \<Rightarrow> False)
      else cmp_match opr b x)"

definition re_match :: "runtime \<Rightarrow> regexp \<Rightarrow> jsval \<Rightarrow> bool" where
  "re_match rt r x = (case x of J (JStr s) \<Rightarrow> RegExp_test rt r s | _ \<Rightarrow> False)"

fun cond_match :: "runtime \<Rightarrow> doc \<Rightarrow> string \<Rightarrow> qval \<Rightarrow> bool" where
  "cond_match rt d k (Val v) = eq_match v (field d k)"
| "cond_match rt d k (Re r) = re_match rt r (field d k)"
| "cond_match rt d k (Ops ops) = list_all (\<lambda>(opr, b). op_match opr b (field d k)) ops"
| "cond_match rt d k (Or cs) = list_ex (\<lambda>(f, r). re_match rt r (field d f)) cs"

definition doc_matches :: "runtime \<Rightarrow> query \<Rightarrow> doc \<Rightarrow> bool" where
  "doc_matches rt q d = list_all (\<lambda>(k, c). cond_match rt d k c) q"

definition Lead_find :: "runtime \<Rightarrow> store \<Rightarrow> query \<Rightarrow> doc list" where
  "Lead_find rt st q = filter (doc_matches rt q) (leads st)"

definition Lead_countDocuments :: "runtime \<Rightarrow> store \<Rightarrow> query \<Rightarrow> nat" where
  "Lead_countDocuments rt st q = length (filter (doc_matches rt q) (leads st))"

text \<open>
  \<^verbatim>\<open>.sort({[sortBy]: sortOrder})\<close>: a stable insertion sort on the field, values of
  different types in the order null, number, string, identifier, boolean, date.
\<close>

fun rank :: "jsval \<Rightarrow> nat" where
  "rank (J JNull) = 0"
| "rank (J (JNum n)) = 1"
| "rank (J (JStr s)) = 2"
| "rank (J (JObj kvs)) = 3"
| "rank (J (JArr xs)) = 4"
| "rank (Oid i) = 5"
| "rank (J (JBool b)) = 6"
| "rank (D t) = 7"

fun bytes_le :: "string \<Rightarrow> string \<Rightarrow> bool" where
  "bytes_le [] ys = True"
| "bytes_le (x # xs) [] = False"
| "bytes_le (x # xs) (y # ys) =
     ((of_char x :: nat) < of_char y \<or> (x = y \<and> bytes_le xs ys))"

fun val_le :: "jsval \<Rightarrow> jsval \<Rightarrow> bool" where
  "val_le (J (JNum a)) (J (JNum b)) = (a \<le> b)"
| "val_le (J (JStr a)) (J (JStr b)) = bytes_le a b"
| "val_le (Oid a) (Oid b) = bytes_le a b"
| "val_le (J (JBool a)) (J (JBool b)) = (if a then b else True)"
| "val_le (D (Date a)) (D (Date b)) = (a \<le> b)"
| "val_le a b = (rank a \<le> rank b)"

fun insert_by :: "('a \<Rightarrow> 'a \<Rightarrow> bool) \<Rightarrow> 'a \<Rightarrow> 'a list \<Rightarrow> 'a list" where
  "insert_by le x [] = [x]"
| "insert_by le x (y # ys) = (if le x y then x # y # ys else y # insert_by le x ys)"

definition Lead_sort :: "string \<Rightarrow> int \<Rightarrow> doc list \<Rightarrow> doc list" where
  "Lead_sort sortBy sortOrder ds =
     foldr (insert_by (\<lambda>a b. if sortOrder = 1 then val_le (field a sortBy) (field b sortBy)
                              else val_le (field b sortBy) (field a sortBy))) ds []"

text \<open>
  \<^verbatim>\<open>.populate('createdBy', 'firstName lastName email')\<close>: the creator reference is
  replaced by the selected fields of the user it names, or by \<^verbatim>\<open>null\<close>.
\<close>

definition select_fields :: "string list \<Rightarrow> doc \<Rightarrow> (string \<times> jsval) list" where
  "select_fields ks d = concat (map (\<lambda>k. case d k of None \<Rightarrow> [] | Some v \<Rightarrow> [(k, v)]) ks)"

definition populate :: "store \<Rightarrow> doc \<Rightarrow> populated" where
  "populate st d =
     Populated d
       (map_option (select_fields [''_id'', ''firstName'', ''lastName'', ''email''])
          (find (\<lambda>u. u ''_id'' = d ''createdBy'' \<and> d ''createdBy'' \<noteq> None) (users st)))"

text \<open>
  \<^verbatim>\<open>aggregate([{ $group: { _id: '$f', count: { $sum: 1 } } }])\<close>: one group for each
  value of the field in the collection, with the number of documents holding it.
\<close>

definition group_count :: "string \<Rightarrow> doc list \<Rightarrow> (jsval \<times> nat) list" where
  "group_count f ds =
     map (\<lambda>v. (v, length (filter (\<lambda>d. field d f = v) ds))) (remdups (map (\<lambda>d. field d f) ds))"

text \<open>
  \<^verbatim>\<open>aggregate([{ $group: { _id: null, avg: { $avg: '$f' } } }])\<close>: no group at all on
  an empty collection; otherwise one group whose average is taken over the numeric
  values of the field and is \<^verbatim>\<open>null\<close> when there is none.
\<close>

definition numeric_values :: "string \<Rightarrow> doc list \<Rightarrow> rat list" where
  "numeric_values f ds = concat (map (\<lambda>d. case field d f of J (JNum n) \<Rightarrow> [n] | _ \<Rightarrow> []) ds)"

definition group_avg :: "string \<Rightarrow> doc list \<Rightarrow> rat option list" where
  "group_avg f ds =
     (case ds of
        [] \<Rightarrow> []
      | d # ds' \<Rightarrow>
          let ns = numeric_values f ds
          in [if ns = [] then None else Some (sum_list ns / of_nat (length ns))])"

section \<open>Pagination of the lead list\<close>

text \<open>
  The pagination object of \<^verbatim>\<open>router.get('/')\<close> in \<^verbatim>\<open>routes/leads.js\<close>:
  \<^verbatim>\<open>
    const totalPages = Math.ceil(total / limit);
    pagination: { currentPage: page, totalPages, totalLeads: total,
                  hasNextPage: page < totalPages, hasPrevPage: page > 1, limit }
  \<close>
  The list route calls it with a page and a limit that are integers of at most
  \<open>2 ^ 53\<close> in magnitude, which doubles hold exactly; the count and the quotient
  are exact rationals here.
\<close>

definition Math_ceil :: "rat \<Rightarrow> int" where
  "Math_ceil x = \<lceil>x\<rceil>"

definition mk_pagination :: "int \<Rightarrow> int \<Rightarrow> nat \<Rightarrow> pagination" where
  "mk_pagination pg sz cnt =
     (let tp = Math_ceil (of_nat cnt / of_int sz)
      in \<lparr> currentPage = pg, totalPages = tp, totalLeads = cnt,
           hasNextPage = (pg < tp), hasPrevPage = (pg > 1), limit = sz \<rparr>)"

section \<open>Statistics\<close>

text \<open>
  \<^verbatim>\<open>router.get('/stats/overview')\<close>. The handler reads nothing from the request.
  \<^verbatim>\<open>avgScore[0]?.avgScore || 0\<close> is \<open>0\<close> when there is no group, and when the
  average is \<^verbatim>\<open>null\<close> or \<open>0\<close>.
\<close>

definition or_zero :: "rat option \<Rightarrow> rat" where
  "or_zero x = (case x of None \<Rightarrow> 0 | Some a \<Rightarrow> if a = 0 then 0 else a)"

definition stats_overview :: "store \<Rightarrow> 'req \<Rightarrow> reply" where
  "stats_overview st req =
     (let cnt = length (leads st);
          byStatus = group_count ''status'' (leads st);
          bySource = group_count ''source'' (leads st);
          avg = group_avg ''score'' (leads st)
      in Status 200 (StatsBody (Stats cnt byStatus bySource
           (or_zero (case avg of [] \<Rightarrow> None | g # gs \<Rightarrow> g)))))"

text \<open>
  The score of a lead as a number, and whether the lead holds one: the schema's
  invariant that \<^verbatim>\<open>score\<close> is an integer in [0,100] is kept by validation at the
  write routes, not by the statistics route.
\<close>

definition score_of :: "doc \<Rightarrow> rat" where
  "score_of d = (case field d ''score'' of J (JNum n) \<Rightarrow> n | _ \<Rightarrow> 0)"

definition has_score :: "doc \<Rightarrow> bool" where
  "has_score d = (case field d ''score'' of J (JNum n) \<Rightarrow> True | _ \<Rightarrow> False)"

section \<open>Listing leads\<close>

text \<open>
  \<^verbatim>\<open>isInt({ min, max })\<close> of the validator: the text is an integer literal and the
  number it denotes is within the bounds. The bounds of the route, 1 and 100, are
  doubles and rounding to a double is monotone, so the comparison of the number
  agrees with that of the integer of the literal.
\<close>

definition isInt :: "int option \<Rightarrow> int option \<Rightarrow> qparam \<Rightarrow> bool" where
  "isInt lo hi x =
     (case x of
        IntLit n \<Rightarrow> (case lo of None \<Rightarrow> True | Some a \<Rightarrow> a \<le> n) \<and>
                    (case hi of None \<Rightarrow> True | Some b \<Rightarrow> n \<le> b)
      | _ \<Rightarrow> False)"

text \<open>
  The integers that a double holds exactly and without gaps: those of at most
  \<open>2 ^ 53\<close> in magnitude.
\<close>

definition safe_integer :: "int \<Rightarrow> bool" where
  "safe_integer n = (\<bar>n\<bar> \<le> 9007199254740992)"

text \<open>
  \<^verbatim>\<open>parseInt(x) || d\<close>: the default replaces \<^verbatim>\<open>NaN\<close> and \<open>0\<close>. The number that
  \<^verbatim>\<open>parseInt\<close> yields is a double: it is the integer of the literal when that is
  a safe integer. Beyond, it is that integer rounded, or \<^verbatim>\<open>Infinity\<close>: both are
  \<open>None\<close> here.
\<close>

definition parseInt_or :: "qparam \<Rightarrow> int \<Rightarrow> int option" where
  "parseInt_or x d =
     (case x of
        IntLit n \<Rightarrow> if safe_integer n then Some (if n = 0 then d else n) else None
      | _ \<Rightarrow> Some d)"

definition is_space :: "char \<Rightarrow> bool" where
  "is_space c = (of_char c \<in> set [9, 10, 11, 12, 13, 32 :: nat])"

definition trim :: "string \<Rightarrow> string" where
  "trim s = rev (dropWhile is_space (rev (dropWhile is_space s)))"

definition validate_list :: "list_request \<Rightarrow> string list" where
  "validate_list req =
     (if q_page req \<noteq> Absent \<and> \<not> isInt (Some 1) None (q_page req)
        then [''Page must be a positive integer''] else []) @
     (if q_limit req \<noteq> Absent \<and> \<not> isInt (Some 1) (Some 100) (q_limit req)
        then [''Limit must be between 1 and 100''] else []) @
     (case q_sortOrder req of
        None \<Rightarrow> []
      | Some ord \<Rightarrow>
          if ord \<in> set [''asc'', ''desc''] then [] else [''Sort order must be asc or desc''])"

text \<open>The \<^verbatim>\<open>try\<close> block around \<^verbatim>\<open>JSON.parse\<close> and \<^verbatim>\<open>buildFilterQuery\<close>.\<close>

definition filters_query :: "runtime \<Rightarrow> json \<Rightarrow> js_error + query" where
  "filters_query rt fs =
     (case (case fs of JStr s \<Rightarrow> JSON_parse rt s | _ \<Rightarrow> Inr fs) of
        Inl e \<Rightarrow> Inl e
      | Inr filters \<Rightarrow> buildFilterQuery rt filters)"

definition search_fields :: "string list" where
  "search_fields = [''firstName'', ''lastName'', ''email'', ''company'', ''city'', ''state'']"

definition search_clauses :: "runtime \<Rightarrow> string \<Rightarrow> js_error + qval" where
  "search_clauses rt search =
     (case RegExp_new rt (JStr search) ''i'' of
        Inl e \<Rightarrow> Inl e
      | Inr r \<Rightarrow> Inr (Or (map (\<lambda>f. (f, r)) search_fields)))"

text \<open>
  The query of a request: the compiled filters, then the search clauses. \<open>Inl\<close> is
  the reply of an early exit: 400 when parsing or compiling the filters throws,
  \<^verbatim>\<open>next(error)\<close> when building the search expression throws.
\<close>

definition request_query :: "runtime \<Rightarrow> list_request \<Rightarrow> reply + query" where
  "request_query rt req =
     (let search = map_option trim (q_search req)
      in case (case q_filters req of
                 None \<Rightarrow> Inr []
               | Some fs \<Rightarrow> if truthy (Some fs) then filters_query rt fs else Inr []) of
           Inl e \<Rightarrow> Inl (Status 400 (ErrorMsg ''Invalid filters format''))
         | Inr q0 \<Rightarrow>
             (case search of
                None \<Rightarrow> Inr q0
              | Some s \<Rightarrow>
                  if s = [] then Inr q0
                  else (case search_clauses rt s of
                          Inl e \<Rightarrow> Inl (Next e)
                        | Inr c \<Rightarrow> Inr (assign ''$or'' c q0))))"

text \<open>
  The handler of \<^verbatim>\<open>router.get('/')\<close>. The page and the limit are read first, and
  used when the database is called and in the pagination of the reply; the early
  exits before that do not depend on them. With a page that is a safe integer and a
  limit of at most 100 the skip is below \<open>2 ^ 63\<close>, a skip that the database takes;
  a collection of \<open>2 ^ 53\<close> leads or more, where the rounding of the skip and of
  the count would show, is not considered.
\<close>

definition list_leads :: "runtime \<Rightarrow> store \<Rightarrow> list_request \<Rightarrow> reply" where
  "list_leads rt st req =
     (let errors = validate_list req in
      if errors \<noteq> [] then Status 400 (ErrorDetails ''Validation failed'' errors)
      else
        let sortBy = (case map_option trim (q_sortBy req) of
                        None \<Rightarrow> ''createdAt''
                      | Some b \<Rightarrow> if b = [] then ''createdAt'' else b);
            sortOrder = (if q_sortOrder req = Some ''asc'' then 1 else - 1 :: int)
        in case request_query rt req of
             Inl early \<Rightarrow> early
           | Inr q \<Rightarrow>
               (case (parseInt_or (q_page req) 1, parseInt_or (q_limit req) 20) of
                  (Some page, Some sz) \<Rightarrow>
                    let skip = (page - 1) * sz
                    in (case cast_error rt q of
                          Some e \<Rightarrow> Next e
                        | None \<Rightarrow>
                            let found = take (nat sz) (drop (nat skip)
                                          (Lead_sort sortBy sortOrder (Lead_find rt st q)));
                                cnt = Lead_countDocuments rt st q
                            in Status 200 (ListBody (map (populate st) found)
                                             (mk_pagination page sz cnt)))
                | _ \<Rightarrow> beyond_safe_integers rt st req))"

section \<open>Updating a lead\<close>

text \<open>
  What a handler behind validation chains sees of a request: the messages that
  \<^verbatim>\<open>validationResult(req)\<close> holds, the body as the sanitizers left it, and the
  \<^verbatim>\<open>:id\<close> of the path. The chains themselves run in the validation library and
  are not modelled.
\<close>

record request =
  v_errors :: "string list"
  r_body :: json
  r_id :: string

text \<open>\<^verbatim>\<open>{ ...req.body }\<close>: the own properties; nothing for \<^verbatim>\<open>null\<close>.\<close>

definition spread :: "json \<Rightarrow> (string \<times> json) list" where
  "spread v = (case own_entries v of Inl e \<Rightarrow> [] | Inr es \<Rightarrow> es)"

definition update_data :: "runtime \<Rightarrow> json \<Rightarrow> js_error + (string \<times> jsval) list" where
  "update_data rt b =
     (let updateData = map (\<lambda>(k, v). (k, J v)) (spread b)
      in case get_prop b ''lastActivityAt'' of
           None \<Rightarrow> Inr updateData
         | Some a \<Rightarrow>
             if truthy (Some a)
             then then_do (Date_new rt a) (\<lambda>d.
                    Inr (AList.update ''lastActivityAt'' (D d) updateData))
             else Inr updateData)"

text \<open>
  The custom validator of \<^verbatim>\<open>lastActivityAt\<close> in \<^verbatim>\<open>validateLead\<close>: an empty
  value passes, any other must make a valid date. The validation library records
  the field as invalid when the function throws.
\<close>

definition lastActivityAt_valid :: "runtime \<Rightarrow> json option \<Rightarrow> bool" where
  "lastActivityAt_valid rt val =
     (case val of
        None \<Rightarrow> True
      | Some v \<Rightarrow>
          if \<not> truthy (Some v) \<or> v = JNull \<or> v = JStr [] then True
          else (case Date_new rt v of
                  Inl e \<Rightarrow> False
                | Inr date \<Rightarrow> getTime date \<noteq> None))"

text \<open>
  Modelled from the spec: the Lead model (\<^verbatim>\<open>models/Lead.js\<close>) and its
  \<^verbatim>\<open>findByIdAndUpdate\<close> are not among the sources. The specification says of
  \<^verbatim>\<open>update(id, payload) -> Lead | NotFound\<close>: \<^verbatim>\<open>updatedAt\<close> is refreshed;
  \<^verbatim>\<open>createdAt\<close>/\<^verbatim>\<open>createdBy\<close> are immutable and ignored if present in the
  payload; any other field is mutated by PUT. The identifier, by which the lead is
  found, stays.
\<close>

definition apply_update :: "int \<Rightarrow> doc \<Rightarrow> (string \<times> jsval) list \<Rightarrow> doc" where
  "apply_update now old upd =
     (\<lambda>k. if k \<in> set [''createdAt'', ''createdBy'', ''_id''] then old k
          else if k = ''updatedAt'' then Some (D (Date now))
          else (case map_of upd k of Some v \<Rightarrow> Some v | None \<Rightarrow> old k))"

text \<open>
  Modelled from the spec: \<^verbatim>\<open>Lead.findByIdAndUpdate(id, update, { new: true })\<close>
  of the same model. \<^verbatim>\<open>update(id, payload) -> Lead | NotFound\<close>: the lead with the
  identifier is replaced by its update, which is returned, or there is none.
\<close>

definition Lead_findByIdAndUpdate ::
    "int \<Rightarrow> store \<Rightarrow> string \<Rightarrow> (string \<times> jsval) list \<Rightarrow> (store \<times> doc) option" where
  "Lead_findByIdAndUpdate now st i upd =
     (case find (\<lambda>d. d ''_id'' = Some (Oid i)) (leads st) of
        None \<Rightarrow> None
      | Some old \<Rightarrow>
          let new = apply_update now old upd
          in Some (st\<lparr>leads := map (\<lambda>d. if d ''_id'' = Some (Oid i) then new else d) (leads st)\<rparr>,
                   new))"

text \<open>\<^verbatim>\<open>router.put('/:id')\<close>, at the time \<open>now\<close>.\<close>

definition put_lead :: "runtime \<Rightarrow> int \<Rightarrow> store \<Rightarrow> request \<Rightarrow> store \<times> reply" where
  "put_lead rt now st req =
     (if v_errors req \<noteq> []
      then (st, Status 400 (ErrorDetails ''Validation failed'' (v_errors req)))
      else
        case update_data rt (r_body req) of
          Inl e \<Rightarrow> (st, Next e)
        | Inr updateData \<Rightarrow>
            (case Lead_findByIdAndUpdate now st (r_id req) updateData of
               None \<Rightarrow> (st, Status 404 (ErrorMsg ''Lead not found''))
             | Some (st', lead) \<Rightarrow>
                 (st', Status 200 (LeadBody ''Lead updated successfully'' (populate st' lead)))))"

section \<open>Sessions\<close>

text \<open>
  The claims that \<^verbatim>\<open>jwt.sign({ id: userId }, secret, { expiresIn })\<close> signs at the
  time \<open>now\<close> (milliseconds): \<^verbatim>\<open>iat\<close> is the time in whole seconds and
  \<^verbatim>\<open>exp\<close> is \<^verbatim>\<open>Math.floor(iat + ms(expiresIn) / 1000)\<close>. Of the \<^verbatim>\<open>ms\<close>
  package the model has the form that the repository uses: a number followed by one
  of the short units \<^verbatim>\<open>d\<close>, \<^verbatim>\<open>h\<close>, \<^verbatim>\<open>m\<close>, \<^verbatim>\<open>s\<close>.
\<close>

record claims =
  claim_id :: jsval
  iat :: int
  exp :: "int option"

definition is_digit :: "char \<Rightarrow> bool" where
  "is_digit c = (48 \<le> (of_char c :: nat) \<and> (of_char c :: nat) \<le> 57)"

fun digits_value :: "nat \<Rightarrow> string \<Rightarrow> nat" where
  "digits_value acc [] = acc"
| "digits_value acc (c # cs) = digits_value (10 * acc + (of_char c - 48)) cs"

definition unit_ms :: "string \<Rightarrow> int option" where
  "unit_ms u =
     (if u = ''d'' then Some (24 * 60 * 60 * 1000)
      else if u = ''h'' then Some (60 * 60 * 1000)
      else if u = ''m'' then Some (60 * 1000)
      else if u = ''s'' then Some 1000
      else None)"

definition ms :: "string \<Rightarrow> int option" where
  "ms str =
     (let ds = takeWhile is_digit str; u = dropWhile is_digit str
      in if ds = [] then None
         else map_option (\<lambda>f. int (digits_value 0 ds) * f) (unit_ms u))"

definition timespan :: "string \<Rightarrow> int \<Rightarrow> int option" where
  "timespan expiresIn t = map_option (\<lambda>m. \<lfloor>(of_int t :: rat) + of_int m / 1000\<rfloor>) (ms expiresIn)"

definition sign_payload :: "int \<Rightarrow> jsval \<Rightarrow> string \<Rightarrow> claims" where
  "sign_payload now userId expiresIn =
     (let t = now div 1000
      in \<lparr> claim_id = userId, iat = t, exp = timespan expiresIn t \<rparr>)"

text \<open>
  The token library with the configured secret, and the User model
  (\<^verbatim>\<open>models/User.js\<close>, not among the sources), are parameters: signing and
  verifying a token, looking a user up, saving a new one, comparing a password. Each
  may throw.
\<close>

record auth_env =
  jwt_sign :: "claims \<Rightarrow> js_error + string"
  jwt_verify :: "json \<Rightarrow> js_error + json"
  User_findById :: "store \<Rightarrow> json option \<Rightarrow> js_error + doc option"
  User_findOne :: "store \<Rightarrow> json option \<Rightarrow> js_error + doc option"
  User_save :: "store \<Rightarrow> (string \<times> json option) list \<Rightarrow> js_error + store \<times> doc"
  comparePassword :: "doc \<Rightarrow> json option \<Rightarrow> js_error + bool"

text \<open>\<^verbatim>\<open>generateToken\<close> of \<^verbatim>\<open>middleware/auth.js\<close>.\<close>

definition generateToken :: "auth_env \<Rightarrow> int \<Rightarrow> jsval \<Rightarrow> js_error + string" where
  "generateToken env now userId = jwt_sign env (sign_payload now userId ''7d'')"

section \<open>The auth routes\<close>

record cookie_options =
  httpOnly :: bool
  secure :: bool
  sameSite :: string
  maxAge :: "int option"
  path :: string

datatype cookie_effect =
    NoCookie
  | SetCookie string string cookie_options
  | ClearCookie string cookie_options

text \<open>\<^verbatim>\<open>router.post('/register')\<close> of \<^verbatim>\<open>routes/auth.js\<close>.\<close>

definition register :: "auth_env \<Rightarrow> int \<Rightarrow> store \<Rightarrow> request \<Rightarrow> store \<times> reply \<times> cookie_effect" where
  "register env now st req =
     (if v_errors req \<noteq> []
      then (st, Status 400 (ErrorDetails ''Validation failed'' (v_errors req)), NoCookie)
      else
        let firstName = get_prop (r_body req) ''firstName'';
            lastName = get_prop (r_body req) ''lastName'';
            email = get_prop (r_body req) ''email'';
            password = get_prop (r_body req) ''password''
        in case User_findOne env st email of
             Inl e \<Rightarrow> (st, Next e, NoCookie)
           | Inr (Some existingUser) \<Rightarrow>
               (st, Status 400 (ErrorMsg ''User already exists with this email''), NoCookie)
           | Inr None \<Rightarrow>
               (case User_save env st [(''firstName'', firstName), (''lastName'', lastName),
                                       (''email'', email), (''password'', password)] of
                  Inl e \<Rightarrow> (st, Next e, NoCookie)
                | Inr (st', user) \<Rightarrow>
                    (case generateToken env now (field user ''_id'') of
                       Inl e \<Rightarrow> (st', Next e, NoCookie)
                     | Inr token \<Rightarrow>
                         (st', Status 201 (UserBody ''User registered successfully'' user),
                          SetCookie ''token'' token
                            \<lparr> httpOnly = True, secure = True, sameSite = ''none'',
                              maxAge = Some (7 * 24 * 60 * 60 * 1000), path = ''/'' \<rparr>))))"

text \<open>\<^verbatim>\<open>router.post('/login')\<close>.\<close>

definition login :: "auth_env \<Rightarrow> int \<Rightarrow> store \<Rightarrow> request \<Rightarrow> reply \<times> cookie_effect" where
  "login env now st req =
     (if v_errors req \<noteq> []
      then (Status 400 (ErrorDetails ''Validation failed'' (v_errors req)), NoCookie)
      else
        let email = get_prop (r_body req) ''email'';
            password = get_prop (r_body req) ''password''
        in case User_findOne env st email of
             Inl e \<Rightarrow> (Next e, NoCookie)
           | Inr None \<Rightarrow> (Status 401 (ErrorMsg ''Invalid credentials''), NoCookie)
           | Inr (Some user) \<Rightarrow>
               (case comparePassword env user password of
                  Inl e \<Rightarrow> (Next e, NoCookie)
                | Inr isMatch \<Rightarrow>
                    if \<not> isMatch then (Status 401 (ErrorMsg ''Invalid credentials''), NoCookie)
                    else (case generateToken env now (field user ''_id'') of
                            Inl e \<Rightarrow> (Next e, NoCookie)
                          | Inr token \<Rightarrow>
                              (Status 200 (UserBody ''Login successful'' user),
                               SetCookie ''token'' token
                                 \<lparr> httpOnly = True, secure = True, sameSite = ''none'',
                                   maxAge = Some (7 * 24 * 60 * 60 * 1000), path = ''/'' \<rparr>))))"

text \<open>\<^verbatim>\<open>router.post('/logout')\<close>.\<close>

definition logout :: "reply \<times> cookie_effect" where
  "logout =
     (Status 200 (Message ''Logout successful''),
      ClearCookie ''token''
        \<lparr> httpOnly = True, secure = True, sameSite = ''none'', maxAge = None, path = ''/'' \<rparr>)"

section \<open>The auth guard\<close>

text \<open>
  Of a request the guard and the routers read the method, the path as its segments,
  the \<^verbatim>\<open>token\<close> cookie as the cookie parser gives it, and the
  \<^verbatim>\<open>Authorization\<close> header.
\<close>

record http_request =
  h_method :: string
  h_path :: "string list"
  cookie_token :: "json option"
  authorization :: "string option"

text \<open>\<^verbatim>\<open>s.split(" ")\<close>, and the element at index 1 of an array.\<close>

fun split_space :: "string \<Rightarrow> string list" where
  "split_space [] = [[]]"
| "split_space (c # cs) =
     (if c = CHR '' '' then [] # split_space cs
      else (case split_space cs of
              [] \<Rightarrow> [[c]]
            | w # ws \<Rightarrow> (c # w) # ws))"

fun second :: "'a list \<Rightarrow> 'a option" where
  "second (x # y # ys) = Some y"
| "second xs = None"

text \<open>\<^verbatim>\<open>req.cookies.token || req.headers.authorization?.split(" ")[1]\<close>.\<close>

definition request_token :: "http_request \<Rightarrow> json option" where
  "request_token req =
     (if truthy (cookie_token req) then cookie_token req
      else (case authorization req of
              None \<Rightarrow> None
            | Some header \<Rightarrow> map_option JStr (second (split_space header))))"

datatype guard = Denied reply | Granted doc

text \<open>The \<^verbatim>\<open>catch\<close> block of \<^verbatim>\<open>protect\<close>.\<close>

definition auth_failure :: "js_error \<Rightarrow> guard" where
  "auth_failure e =
     (if err_name e = ''JsonWebTokenError'' then Denied (Status 401 (ErrorMsg ''Invalid token.''))
      else if err_name e = ''TokenExpiredError'' then Denied (Status 401 (ErrorMsg ''Token expired.''))
      else Denied (Status 500 (ErrorMsg ''Server error during authentication.'')))"

text \<open>
  \<^verbatim>\<open>protect\<close> of \<^verbatim>\<open>middleware/auth.js\<close>. \<open>Granted user\<close> is the call of
  \<^verbatim>\<open>next()\<close> with \<^verbatim>\<open>req.user\<close> set to the user without the password.
\<close>

definition protect :: "auth_env \<Rightarrow> store \<Rightarrow> http_request \<Rightarrow> guard" where
  "protect env st req =
     (case request_token req of
        None \<Rightarrow> Denied (Status 401 (ErrorMsg ''Access denied. No token provided.''))
      | Some token \<Rightarrow>
          if \<not> truthy (Some token)
          then Denied (Status 401 (ErrorMsg ''Access denied. No token provided.''))
          else (case jwt_verify env token of
                  Inl e \<Rightarrow> auth_failure e
                | Inr decoded \<Rightarrow>
                    (case User_findById env st (get_prop decoded ''id'') of
                       Inl e \<Rightarrow> auth_failure e
                     | Inr None \<Rightarrow>
                         Denied (Status 401 (ErrorMsg ''Invalid token. User not found.''))
                     | Inr (Some user) \<Rightarrow> Granted (user(''password'' := None)))))"

text \<open>\<^verbatim>\<open>router.get('/me')\<close> of \<^verbatim>\<open>routes/auth.js\<close>, behind the guard.\<close>

definition me :: "doc \<Rightarrow> reply" where
  "me user = Status 200 (MeBody user)"

section \<open>The routers\<close>

text \<open>
  A router is a list of layers, tried in order: a middleware mounted with
  \<^verbatim>\<open>use\<close>, or a route with a method, a path pattern and its own stack of
  middleware ending in the handler. The validation chains always call
  \<^verbatim>\<open>next\<close>; the guard calls it only when it grants; a handler ends the request.
  Path segments are compared as they are.
\<close>

datatype handler =
    Stats_overview | List_leads | Get_lead | Create_lead | Update_lead | Delete_lead
  | Register | Login | Logout | Me | Health

datatype seg = Lit string | Param string

datatype middleware = Protect | Validators | Handler handler

datatype layer = Use middleware | Route string "seg list" "middleware list"

datatype outcome = Replied reply | Ran handler "doc option" | Unmatched

fun seg_match :: "seg \<Rightarrow> string \<Rightarrow> bool" where
  "seg_match (Lit s) x = (s = x)"
| "seg_match (Param n) x = (x \<noteq> [])"

fun path_match :: "seg list \<Rightarrow> string list \<Rightarrow> bool" where
  "path_match [] [] = True"
| "path_match (s # ss) (x # xs) = (seg_match s x \<and> path_match ss xs)"
| "path_match ss xs = False"

fun run_stack ::
    "auth_env \<Rightarrow> store \<Rightarrow> http_request \<Rightarrow> doc option \<Rightarrow> middleware list \<Rightarrow> outcome + doc option" where
  "run_stack env st req u [] = Inr u"
| "run_stack env st req u (Protect # rest) =
     (case protect env st req of
        Denied r \<Rightarrow> Inl (Replied r)
      | Granted usr \<Rightarrow> run_stack env st req (Some usr) rest)"
| "run_stack env st req u (Validators # rest) = run_stack env st req u rest"
| "run_stack env st req u (Handler h # rest) = Inl (Ran h u)"

fun dispatch ::
    "auth_env \<Rightarrow> store \<Rightarrow> http_request \<Rightarrow> doc option \<Rightarrow> layer list \<Rightarrow> outcome" where
  "dispatch env st req u [] = Unmatched"
| "dispatch env st req u (Use m # ls) =
     (case run_stack env st req u [m] of
        Inl out \<Rightarrow> out
      | Inr u' \<Rightarrow> dispatch env st req u' ls)"
| "dispatch env st req u (Route meth pat stack # ls) =
     (if h_method req = meth \<and> path_match pat (h_path req)
      then (case run_stack env st req u stack of
              Inl out \<Rightarrow> out
            | Inr u' \<Rightarrow> dispatch env st req u' ls)
      else dispatch env st req u ls)"

text \<open>The router of \<^verbatim>\<open>routes/leads.js\<close>, which begins with \<^verbatim>\<open>router.use(protect)\<close>.\<close>

definition leads_router :: "layer list" where
  "leads_router =
     [Use Protect,
      Route ''GET'' [Lit ''stats'', Lit ''overview''] [Handler Stats_overview],
      Route ''GET'' [] [Validators, Handler List_leads],
      Route ''GET'' [Param ''id''] [Handler Get_lead],
      Route ''POST'' [] [Validators, Handler Create_lead],
      Route ''PUT'' [Param ''id''] [Validators, Handler Update_lead],
      Route ''DELETE'' [Param ''id''] [Handler Delete_lead]]"

text \<open>The router of \<^verbatim>\<open>routes/auth.js\<close>.\<close>

definition auth_router :: "layer list" where
  "auth_router =
     [Route ''POST'' [Lit ''register''] [Validators, Handler Register],
      Route ''POST'' [Lit ''login''] [Validators, Handler Login],
      Route ''POST'' [Lit ''logout''] [Handler Logout],
      Route ''GET'' [Lit ''me''] [Protect, Handler Me]]"

text \<open>
  The application of \<^verbatim>\<open>server.js\<close>: the health check, the two routers under
  \<^verbatim>\<open>/api/auth\<close> and \<^verbatim>\<open>/api/leads\<close>, and the 404 for anything else.
\<close>

definition mounted :: "auth_env \<Rightarrow> store \<Rightarrow> http_request \<Rightarrow> outcome" where
  "mounted env st req =
     (case h_path req of
        a # b # rest \<Rightarrow>
          if a = ''api'' \<and> b = ''auth''
            then dispatch env st (req\<lparr>h_path := rest\<rparr>) None auth_router
          else if a = ''api'' \<and> b = ''leads''
            then dispatch env st (req\<lparr>h_path := rest\<rparr>) None leads_router
          else Unmatched
      | _ \<Rightarrow> Unmatched)"

definition app :: "auth_env \<Rightarrow> store \<Rightarrow> http_request \<Rightarrow> outcome" where
  "app env st req =
     (if h_method req = ''GET'' \<and> h_path req = [''api'', ''health''] then Ran Health None
      else (case mounted env st req of
              Unmatched \<Rightarrow> Replied (Status 404 (ErrorMsg ''Route not found''))
            | out \<Rightarrow> out))"

section \<open>What the specification calls a malformed entry\<close>

text \<open>
  The operators that the specification lists for a field, and its malformed entries:
  one that is not an object, has no \<^verbatim>\<open>operator\<close> or no \<^verbatim>\<open>value\<close>, names a
  field that is not recognised, or has an operator that is not listed for its field.
  These follow the specification's words; \<open>filter_step\<close> above follows the code.
\<close>

definition listed_operators :: "string \<Rightarrow> string list" where
  "listed_operators key =
     (if key \<in> set text_fields then [''equals'', ''contains'']
      else if key \<in> set enum_fields then [''equals'', ''in'']
      else if key \<in> set numeric_fields then [''equals'', ''gt'', ''lt'', ''between'']
      else if key \<in> set temporal_fields then [''on'', ''before'', ''after'', ''between'']
      else if key = ''isQualified'' then [''equals'']
      else [])"

fun is_object :: "json \<Rightarrow> bool" where
  "is_object (JObj kvs) = True"
| "is_object v = False"

definition malformed :: "string \<Rightarrow> json \<Rightarrow> bool" where
  "malformed key e =
     (\<not> is_object e \<or> get_prop e ''operator'' = None \<or> get_prop e ''value'' = None \<or>
      \<not> list_ex (op_is (get_prop e ''operator'')) (listed_operators key))"

text \<open>
  The constructor calls that an entry leads to, in the order in which they are made:
  \<^verbatim>\<open>new RegExp(value, 'i')\<close> for \<^verbatim>\<open>contains\<close> on a free-text field,
  \<^verbatim>\<open>new Date(value)\<close> for an operator of a temporal field, and for
  \<^verbatim>\<open>between\<close> with a \<^verbatim>\<open>value2\<close> also \<^verbatim>\<open>new Date(value2)\<close>.
  \<open>first_error\<close> is the error of the first call that throws.
\<close>

datatype ctor_call = New_RegExp json | New_Date json

definition constructor_calls :: "string \<Rightarrow> json \<Rightarrow> ctor_call list" where
  "constructor_calls key e =
     (case get_prop e ''value'' of
        None \<Rightarrow> []
      | Some v \<Rightarrow>
          if key \<in> set text_fields
            then (if op_is (get_prop e ''operator'') ''contains'' then [New_RegExp v] else [])
          else if key \<in> set temporal_fields
            then (if list_ex (op_is (get_prop e ''operator'')) [''on'', ''before'', ''after'']
                    then [New_Date v]
                  else if op_is (get_prop e ''operator'') ''between''
                    then (case get_prop e ''value2'' of
                            None \<Rightarrow> []
                          | Some v2 \<Rightarrow> [New_Date v, New_Date v2])
                  else [])
          else [])"

definition call_error :: "runtime \<Rightarrow> ctor_call \<Rightarrow> js_error option" where
  "call_error rt c =
     (case c of
        New_RegExp v \<Rightarrow> (case RegExp_new rt v ''i'' of Inl e \<Rightarrow> Some e | Inr r \<Rightarrow> None)
      | New_Date v \<Rightarrow> (case Date_new rt v of Inl e \<Rightarrow> Some e | Inr d \<Rightarrow> None))"

fun first_error :: "runtime \<Rightarrow> ctor_call list \<Rightarrow> js_error option" where
  "first_error rt [] = None"
| "first_error rt (c # cs) =
     (case call_error rt c of Some e \<Rightarrow> Some e | None \<Rightarrow> first_error rt cs)"

definition all_calls :: "(string \<times> json) list \<Rightarrow> ctor_call list" where
  "all_calls kvs = concat (map (\<lambda>(key, e). constructor_calls key e) kvs)"

section \<open>A runtime for examples\<close>

text \<open>
  The \<^verbatim>\<open>RegExp\<close> constructor rejects, among others, a pattern in which a group or
  a character class is left open, a group is closed that was never opened, or a
  backslash ends the pattern. \<open>brackets_ok\<close> checks exactly that, given the number of
  open groups and whether a class is open.
\<close>

fun brackets_ok :: "nat \<Rightarrow> bool \<Rightarrow> string \<Rightarrow> bool" where
  "brackets_ok depth cls [] = (depth = 0 \<and> \<not> cls)"
| "brackets_ok depth cls (c # cs) =
     (if c = CHR 0x5C then (case cs of [] \<Rightarrow> False | e # rest \<Rightarrow> brackets_ok depth cls rest)
      else if cls then brackets_ok depth (c \<noteq> CHR '']'') cs
      else if c = CHR ''['' then brackets_ok depth True cs
      else if c = CHR ''('' then brackets_ok (Suc depth) False cs
      else if c = CHR '')'' then (0 < depth \<and> brackets_ok (depth - 1) False cs)
      else brackets_ok depth False cs)"

text \<open>
  The examples below give dates as numbers and filters as parsed objects, hold whole
  numbers only and search for nothing; this runtime therefore prints whole numbers,
  knows no date format, parses no JSON text, matches no string, casts every
  query and refuses a page beyond the safe integers. Of the patterns it rejects
  those of \<open>brackets_ok\<close>.
\<close>

definition show_int :: "int \<Rightarrow> string" where
  "show_int i = (if i < 0 then CHR ''-'' # show_nat (nat (- i)) else show_nat (nat i))"

definition example_rt :: runtime where
  "example_rt =
     \<lparr> Number_toString = (\<lambda>n. show_int \<lfloor>n\<rfloor>),
       pattern_ok = brackets_ok 0 False,
       Date_parse = (\<lambda>s. None),
       RegExp_test = (\<lambda>r s. False),
       JSON_parse = (\<lambda>s. Inl (Error ''SyntaxError'')),
       cast_error = (\<lambda>q. None),
       beyond_safe_integers = (\<lambda>st req. Next (Error ''MongoServerError'')) \<rparr>"

text \<open>A store of one user and ten leads: four won, three lost, three new.\<close>

definition example_user :: doc where
  "example_user =
     [''_id'' \<mapsto> Oid ''u1'', ''firstName'' \<mapsto> J (JStr ''Test''), ''lastName'' \<mapsto> J (JStr ''User''),
      ''email'' \<mapsto> J (JStr ''test@leadmanager.com''), ''password'' \<mapsto> J (JStr ''hash'')]"

definition example_lead :: "string \<Rightarrow> string \<Rightarrow> rat \<Rightarrow> doc" where
  "example_lead i st sc =
     [''_id'' \<mapsto> Oid i, ''status'' \<mapsto> J (JStr st), ''source'' \<mapsto> J (JStr ''website''),
      ''score'' \<mapsto> J (JNum sc), ''createdBy'' \<mapsto> Oid ''u1'',
      ''createdAt'' \<mapsto> D (Date 1700000000000), ''updatedAt'' \<mapsto> D (Date 1700000000000)]"

definition example_store :: store where
  "example_store =
     \<lparr> users = [example_user],
       leads = [example_lead ''a'' ''won'' 90, example_lead ''b'' ''lost'' 10,
                example_lead ''c'' ''new'' 50, example_lead ''d'' ''won'' 80,
                example_lead ''e'' ''lost'' 20, example_lead ''f'' ''new'' 40,
                example_lead ''g'' ''won'' 70, example_lead ''h'' ''lost'' 30,
                example_lead ''i'' ''new'' 60, example_lead ''j'' ''won'' 100] \<rparr>"

definition example_page :: list_request where
  "example_page =
     \<lparr> q_page = IntLit 2, q_limit = IntLit 3, q_search = None, q_sortBy = None,
       q_sortOrder = None, q_filters = None \<rparr>"

text \<open>
  A filters object with one well-formed entry and five malformed ones: not an object,
  no operator, no value, an unknown field, an operator not listed for its field.
\<close>

definition example_filters :: "(string \<times> json) list" where
  "example_filters =
     [(''email'', JObj [(''operator'', JStr ''contains''), (''value'', JStr ''acme'')]),
      (''company'', JStr ''x''),
      (''city'', JObj [(''value'', JStr ''Paris'')]),
      (''state'', JObj [(''operator'', JStr ''equals'')]),
      (''nickname'', JObj [(''operator'', JStr ''equals''), (''value'', JStr ''bob'')]),
      (''score'', JObj [(''operator'', JStr ''contains''), (''value'', JNum 5)])]"

text \<open>
  A filters object whose only entry hands \<^verbatim>\<open>new RegExp\<close> an unterminated group, and
  a list request that carries it.
\<close>

definition example_bad_filters :: "(string \<times> json) list" where
  "example_bad_filters =
     [(''email'', JObj [(''operator'', JStr ''contains''), (''value'', JStr ''('')])]"

definition example_bad_request :: list_request where
  "example_bad_request =
     \<lparr> q_page = Absent, q_limit = Absent, q_search = None, q_sortBy = None, q_sortOrder = None,
       q_filters = Some (JObj example_bad_filters) \<rparr>"

text \<open>The length of a day in milliseconds, \<^verbatim>\<open>24 * 60 * 60 * 1000\<close>, and two date filters.\<close>

definition day_ms :: int where
  "day_ms = 24 * 60 * 60 * 1000"

definition example_day :: "(string \<times> json) list" where
  "example_day = [(''operator'', JStr ''on''), (''value'', JNum 1700000000000)]"

definition example_span :: "(string \<times> json) list" where
  "example_span =
     [(''operator'', JStr ''between''), (''value'', JNum 1700000000000),
      (''value2'', JNum 1700000005000)]"

text \<open>The list request of the specification's example: status in {won, lost}.\<close>

definition example_status_filter :: list_request where
  "example_status_filter =
     \<lparr> q_page = Absent, q_limit = Absent, q_search = None, q_sortBy = None, q_sortOrder = None,
       q_filters = Some (JObj [(''status'',
         JObj [(''operator'', JStr ''in''), (''value'', JArr [JStr ''won'', JStr ''lost''])])]) \<rparr>"

text \<open>
  An update of lead \<^verbatim>\<open>a\<close> that also supplies \<^verbatim>\<open>createdBy\<close> and
  \<^verbatim>\<open>createdAt\<close>.
\<close>

definition example_update :: request where
  "example_update =
     \<lparr> v_errors = [],
       r_body = JObj [(''status'', JStr ''qualified''), (''score'', JNum 95),
                      (''createdBy'', JStr ''u2''), (''createdAt'', JStr ''2020-01-01''),
                      (''lastActivityAt'', JNum 1700000500000)],
       r_id = ''a'' \<rparr>"

text \<open>
  A token library and a User model for the examples: the token \<^verbatim>\<open>good\<close> names the
  user \<^verbatim>\<open>u1\<close>, \<^verbatim>\<open>gone\<close> names a user that is not stored, \<^verbatim>\<open>old\<close> has
  expired, \<^verbatim>\<open>early\<close> is not yet valid, any other is malformed; passwords are
  compared as they are stored.
\<close>

definition example_verify :: "json \<Rightarrow> js_error + json" where
  "example_verify tok =
     (if tok = JStr ''good'' then Inr (JObj [(''id'', JStr ''u1'')])
      else if tok = JStr ''gone'' then Inr (JObj [(''id'', JStr ''u9'')])
      else if tok = JStr ''old'' then Inl (Error ''TokenExpiredError'')
      else if tok = JStr ''early'' then Inl (Error ''NotBeforeError'')
      else Inl (Error ''JsonWebTokenError''))"

definition example_findById :: "store \<Rightarrow> json option \<Rightarrow> js_error + doc option" where
  "example_findById st i =
     (case i of
        Some (JStr s) \<Rightarrow> Inr (find (\<lambda>u. u ''_id'' = Some (Oid s)) (users st))
      | _ \<Rightarrow> Inr None)"

definition example_save :: "store \<Rightarrow> (string \<times> json option) list \<Rightarrow> js_error + store \<times> doc" where
  "example_save st fs =
     (let user = (\<lambda>k. if k = ''_id'' then Some (Oid ''u2'')
                       else (case map_of fs k of Some (Some v) \<Rightarrow> Some (J v) | _ \<Rightarrow> None))
      in Inr (st\<lparr>users := users st @ [user]\<rparr>, user))"

definition example_env :: auth_env where
  "example_env =
     \<lparr> jwt_sign = (\<lambda>c. Inr ''good''),
       jwt_verify = example_verify,
       User_findById = example_findById,
       User_findOne = (\<lambda>st e. Inr (find (\<lambda>u. map_option J e = u ''email'') (users st))),
       User_save = example_save,
       comparePassword = (\<lambda>u p. Inr (map_option J p = u ''password'')) \<rparr>"

definition example_register :: request where
  "example_register =
     \<lparr> v_errors = [],
       r_body = JObj [(''firstName'', JStr ''A''), (''lastName'', JStr ''B''),
                      (''email'', JStr ''a@b.com''), (''password'', JStr ''secret1'')],
       r_id = [] \<rparr>"

definition example_login :: request where
  "example_login =
     \<lparr> v_errors = [],
       r_body = JObj [(''email'', JStr ''test@leadmanager.com''), (''password'', JStr ''hash'')],
       r_id = [] \<rparr>"

text \<open>The handlers of the lead routes.\<close>

definition lead_handlers :: "handler list" where
  "lead_handlers = [Stats_overview, List_leads, Get_lead, Create_lead, Update_lead, Delete_lead]"

definition example_http :: "string \<Rightarrow> string list \<Rightarrow> json option \<Rightarrow> http_request" where
  "example_http meth p c = \<lparr> h_method = meth, h_path = p, cookie_token = c, authorization = None \<rparr>"

definition with_token :: "json option \<Rightarrow> string option \<Rightarrow> http_request" where
  "with_token c a = \<lparr> h_method = ''GET'', h_path = [''api'', ''leads''], cookie_token = c, authorization = a \<rparr>"

section \<open>Properties\<close>

lemma ceil_div_gt:
  fixes p L :: int and N :: nat
  assumes "0 < L"
  shows "p < \<lceil>(of_nat N :: rat) / of_int L\<rceil> \<longleftrightarrow> p * L < int N"
proof -
  have "p < \<lceil>(of_nat N :: rat) / of_int L\<rceil> \<longleftrightarrow> of_int p < (of_nat N :: rat) / of_int L"
    by (simp add: less_ceiling_iff)
  also have "\<dots> \<longleftrightarrow> (of_int p :: rat) * of_int L < of_nat N"
    using assms by (simp add: pos_less_divide_eq)
  also have "\<dots> \<longleftrightarrow> (of_int (p * L) :: rat) < of_int (int N)"
    by simp
  also have "\<dots> \<longleftrightarrow> p * L < int N"
    by (simp only: of_int_less_iff)
  finally show ?thesis .
qed

lemma validate_list_page:
  assumes "validate_list req = []" and "parseInt_or (q_page req) 1 = Some p"
  shows "1 \<le> p \<and> p \<le> 9007199254740992"
  using assms
  by (cases "q_page req")
     (auto simp: validate_list_def parseInt_or_def isInt_def safe_integer_def split: if_splits)

lemma validate_list_limit:
  assumes "validate_list req = []"
  shows "\<exists>L. parseInt_or (q_limit req) 20 = Some L \<and> 1 \<le> L \<and> L \<le> 100"
  using assms
  by (cases "q_limit req")
     (auto simp: validate_list_def parseInt_or_def isInt_def safe_integer_def split: if_splits)

lemma list_leads_beyond:
  assumes "validate_list req = []" and "request_query rt req = Inr q"
      and "q_page req = IntLit n" and "\<not> safe_integer n"
  shows "list_leads rt st req = beyond_safe_integers rt st req"
  using assms by (simp add: list_leads_def Let_def parseInt_or_def)

text \<open>
  C3. A list request that passes validation, whose page is absent or an integer
  literal of at most \<open>2 ^ 53\<close> (the integers that the numbers of the route hold
  exactly), and whose query \<open>q\<close> is built without an error and accepted by the model
  is answered with status 200 and a pagination object in which, for the page
  \<open>p\<close> \<ge> 1 and the page size \<open>L\<close> in [1,100] of the request (1 and 20 when absent) and
  the number \<open>N\<close> of leads matching \<open>q\<close>: currentPage = p, totalLeads = N,
  totalPages = ceil(N/L), hasNextPage iff p*L < N, and hasPrevPage iff p > 1.
\<close>

theorem list_pagination:
  assumes valid: "validate_list req = []"
      and query: "request_query rt req = Inr q"
      and cast: "cast_error rt q = None"
      and p: "parseInt_or (q_page req) 1 = Some p"
      and N: "N = length (filter (doc_matches rt q) (leads st))"
  shows "1 \<le> p \<and> p \<le> 9007199254740992 \<and>
         (\<exists>L found pg. parseInt_or (q_limit req) 20 = Some L \<and> 1 \<le> L \<and> L \<le> 100 \<and>
            list_leads rt st req = Status 200 (ListBody found pg) \<and>
            currentPage pg = p \<and> totalLeads pg = N \<and> limit pg = L \<and>
            totalPages pg = \<lceil>(of_nat N :: rat) / of_int L\<rceil> \<and>
            (hasNextPage pg \<longleftrightarrow> p * L < int N) \<and>
            (hasPrevPage pg \<longleftrightarrow> 1 < p))"
proof -
  have p1: "1 \<le> p \<and> p \<le> 9007199254740992" using validate_list_page[OF valid p] .
  from validate_list_limit[OF valid] obtain L
    where L: "parseInt_or (q_limit req) 20 = Some L" and L1: "1 \<le> L \<and> L \<le> 100" by blast
  let ?pg = "mk_pagination p L N"
  have reply: "\<exists>found. list_leads rt st req = Status 200 (ListBody found ?pg)"
    using valid query cast p L N
    by (simp add: list_leads_def Let_def Lead_countDocuments_def)
  have next_page: "hasNextPage ?pg \<longleftrightarrow> p * L < int N"
    using L1 ceil_div_gt[of L p N] by (simp add: mk_pagination_def Let_def Math_ceil_def)
  have rest: "currentPage ?pg = p \<and> totalLeads ?pg = N \<and> limit ?pg = L \<and>
              totalPages ?pg = \<lceil>(of_nat N :: rat) / of_int L\<rceil> \<and> (hasPrevPage ?pg \<longleftrightarrow> 1 < p)"
    by (simp add: mk_pagination_def Let_def Math_ceil_def)
  from reply obtain found where "list_leads rt st req = Status 200 (ListBody found ?pg)" ..
  with next_page rest L L1
  have "\<exists>L found pg. parseInt_or (q_limit req) 20 = Some L \<and> 1 \<le> L \<and> L \<le> 100 \<and>
            list_leads rt st req = Status 200 (ListBody found pg) \<and>
            currentPage pg = p \<and> totalLeads pg = N \<and> limit pg = L \<and>
            totalPages pg = \<lceil>(of_nat N :: rat) / of_int L\<rceil> \<and>
            (hasNextPage pg \<longleftrightarrow> p * L < int N) \<and>
            (hasPrevPage pg \<longleftrightarrow> 1 < p)"
    by blast
  with p1 show ?thesis by blast
qed

theorem list_pagination_witness:
  "validate_list example_page = [] \<and> request_query example_rt example_page = Inr [] \<and>
   cast_error example_rt [] = None \<and> parseInt_or (q_page example_page) 1 = Some 2 \<and>
   parseInt_or (q_limit example_page) 20 = Some 3 \<and>
   (\<exists>found pg. list_leads example_rt example_store example_page = Status 200 (ListBody found pg) \<and>
      currentPage pg = 2 \<and> totalLeads pg = 10 \<and> limit pg = 3 \<and> totalPages pg = 4 \<and>
      hasNextPage pg \<and> hasPrevPage pg)"
proof -
  have v: "validate_list example_page = []"
    by (simp add: validate_list_def example_page_def isInt_def)
  have q: "request_query example_rt example_page = Inr []"
    by (simp add: request_query_def example_page_def)
  have p: "parseInt_or (q_page example_page) 1 = Some 2"
    by (simp add: parseInt_or_def example_page_def safe_integer_def)
  have L: "parseInt_or (q_limit example_page) 20 = Some 3"
    by (simp add: parseInt_or_def example_page_def safe_integer_def)
  have N: "(10::nat) = length (filter (doc_matches example_rt []) (leads example_store))"
    by (simp add: doc_matches_def example_store_def)
  have c: "\<lceil>(10 :: rat) / 3\<rceil> = 4" by (rule ceiling_unique) simp_all
  have a: "cast_error example_rt [] = None" by (simp add: example_rt_def)
  show ?thesis
    using list_pagination[OF v q a p N] v q a p L c by simp
qed

subsection \<open>The filter compiler\<close>

lemma map_of_assign: "map_of (assign k c q) = (map_of q)(k \<mapsto> c)"
  by (simp add: assign_def update_conv')

lemma text_case_unlisted:
  "\<not> op_is opr ''equals'' \<Longrightarrow> \<not> op_is opr ''contains'' \<Longrightarrow> text_case rt key opr v q = Inr q"
  by (simp add: text_case_def)

lemma enum_case_unlisted:
  "\<not> op_is opr ''equals'' \<Longrightarrow> \<not> op_is opr ''in'' \<Longrightarrow> enum_case key opr v q = q"
  by (simp add: enum_case_def)

lemma numeric_case_unlisted:
  "\<not> op_is opr ''equals'' \<Longrightarrow> \<not> op_is opr ''gt'' \<Longrightarrow> \<not> op_is opr ''lt'' \<Longrightarrow>
   \<not> op_is opr ''between'' \<Longrightarrow> numeric_case key opr v v2 q = q"
  by (simp add: numeric_case_def split: option.splits)

lemma temporal_case_unlisted:
  "\<not> op_is opr ''on'' \<Longrightarrow> \<not> op_is opr ''before'' \<Longrightarrow> \<not> op_is opr ''after'' \<Longrightarrow>
   \<not> op_is opr ''between'' \<Longrightarrow> temporal_case rt key opr v v2 q = Inr q"
  by (simp add: temporal_case_def then_do_def split: option.splits)

lemma boolean_case_unlisted:
  "\<not> op_is opr ''equals'' \<Longrightarrow> boolean_case key opr v q = q"
  by (simp add: boolean_case_def)

lemma step_not_object: "\<not> is_object e \<Longrightarrow> filter_step rt key e q = Inr q"
  by (cases e) (simp_all add: filter_step_def)

lemma step_object:
  "filter_step rt key (JObj kvs) q =
     (case map_of kvs ''value'' of
        None \<Rightarrow> Inr q
      | Some v \<Rightarrow>
          if \<not> truthy (map_of kvs ''operator'') then Inr q
          else if key \<in> set text_fields
            then text_case rt key (map_of kvs ''operator'') v q
          else if key \<in> set enum_fields
            then Inr (enum_case key (map_of kvs ''operator'') v q)
          else if key \<in> set numeric_fields
            then Inr (numeric_case key (map_of kvs ''operator'') v (map_of kvs ''value2'') q)
          else if key \<in> set temporal_fields
            then temporal_case rt key (map_of kvs ''operator'') v (map_of kvs ''value2'') q
          else if key = ''isQualified''
            then Inr (boolean_case key (map_of kvs ''operator'') v q)
          else Inr q)"
  by (simp add: filter_step_def Let_def)

lemma key_class:
  obtains (textual) "key \<in> set text_fields"
  | (enum) "key \<notin> set text_fields" "key \<in> set enum_fields"
  | (num) "key \<notin> set text_fields" "key \<notin> set enum_fields" "key \<in> set numeric_fields"
  | (tmp) "key \<notin> set text_fields" "key \<notin> set enum_fields" "key \<notin> set numeric_fields"
          "key \<in> set temporal_fields"
  | (bool) "key \<notin> set text_fields" "key \<notin> set enum_fields" "key \<notin> set numeric_fields"
          "key \<notin> set temporal_fields" "key = ''isQualified''"
  | (other) "key \<notin> set text_fields" "key \<notin> set enum_fields" "key \<notin> set numeric_fields"
          "key \<notin> set temporal_fields" "key \<noteq> ''isQualified''"
  by blast

lemma temporal_only:
  "key \<in> set temporal_fields \<Longrightarrow>
   key \<notin> set text_fields \<and> key \<notin> set enum_fields \<and> key \<notin> set numeric_fields"
  by (auto simp: temporal_fields_def text_fields_def enum_fields_def numeric_fields_def)

lemma isQualified_only:
  "''isQualified'' \<notin> set text_fields \<and> ''isQualified'' \<notin> set enum_fields \<and>
   ''isQualified'' \<notin> set numeric_fields \<and> ''isQualified'' \<notin> set temporal_fields"
  by (simp add: temporal_fields_def text_fields_def enum_fields_def numeric_fields_def)

lemma step_malformed: "malformed key e \<Longrightarrow> filter_step rt key e q = Inr q"
proof (cases e)
  case (JObj kvs)
  assume m: "malformed key e"
  show ?thesis
  proof (cases "map_of kvs ''value''")
    case None
    then show ?thesis using JObj by (simp add: step_object)
  next
    case (Some v)
    show ?thesis
    proof (cases "truthy (map_of kvs ''operator'')")
      case False
      then show ?thesis using JObj Some by (simp add: step_object)
    next
      case True
      then have "map_of kvs ''operator'' \<noteq> None"
        by (cases "map_of kvs ''operator''") simp_all
      with m JObj Some
      have unl: "\<not> list_ex (op_is (map_of kvs ''operator'')) (listed_operators key)"
        by (simp add: malformed_def)
      show ?thesis
      proof (cases key rule: key_class)
        case textual
        with unl show ?thesis unfolding JObj step_object
          by (simp add: Some True listed_operators_def text_case_unlisted)
      next
        case enum
        with unl show ?thesis unfolding JObj step_object
          by (simp add: Some True listed_operators_def enum_case_unlisted)
      next
        case num
        with unl show ?thesis unfolding JObj step_object
          by (simp add: Some True listed_operators_def numeric_case_unlisted)
      next
        case tmp
        with unl show ?thesis unfolding JObj step_object
          by (simp add: Some True listed_operators_def temporal_case_unlisted)
      next
        case bool
        with unl show ?thesis unfolding JObj step_object
          by (simp add: Some True listed_operators_def boolean_case_unlisted)
      next
        case other
        then show ?thesis unfolding JObj step_object
          by (simp add: Some True)
      qed
    qed
  qed
qed (simp_all add: step_not_object)

lemma malformed_no_calls: "malformed key e \<Longrightarrow> constructor_calls key e = []"
proof (cases e)
  case (JObj kvs)
  assume m: "malformed key e"
  show ?thesis
  proof (cases "map_of kvs ''value'' = None \<or> map_of kvs ''operator'' = None")
    case True
    then show ?thesis
      by (auto simp: JObj constructor_calls_def op_is_def split: option.splits)
  next
    case False
    with m JObj
    have unl: "\<not> list_ex (op_is (map_of kvs ''operator'')) (listed_operators key)"
      by (auto simp: malformed_def)
    show ?thesis
    proof (cases "key \<in> set text_fields")
      case True
      with unl show ?thesis
        by (simp add: JObj constructor_calls_def listed_operators_def split: option.splits)
    next
      case nt: False
      show ?thesis
      proof (cases "key \<in> set temporal_fields")
        case True
        with unl temporal_only[OF True] show ?thesis
          by (simp add: JObj constructor_calls_def listed_operators_def split: option.splits)
      next
        case False
        with nt show ?thesis
          by (simp add: JObj constructor_calls_def split: option.splits)
      qed
    qed
  qed
qed (simp_all add: constructor_calls_def)

lemma text_case_other:
  "text_case rt key opr v q = Inr q' \<Longrightarrow> k \<noteq> key \<Longrightarrow> map_of q' k = map_of q k"
  by (auto simp: text_case_def Let_def map_of_assign split: if_splits sum.splits)

lemma enum_case_other: "k \<noteq> key \<Longrightarrow> map_of (enum_case key opr v q) k = map_of q k"
  by (simp add: enum_case_def Let_def map_of_assign)

lemma numeric_case_other: "k \<noteq> key \<Longrightarrow> map_of (numeric_case key opr v v2 q) k = map_of q k"
  by (simp add: numeric_case_def Let_def map_of_assign split: option.splits)

lemma then_do_Inr: "then_do m f = Inr y \<longleftrightarrow> (\<exists>x. m = Inr x \<and> f x = Inr y)"
  by (cases m) (simp_all add: then_do_def)

lemma temporal_case_other:
  assumes "temporal_case rt key opr v v2 q = Inr q'" and "k \<noteq> key"
  shows "map_of q' k = map_of q k"
proof -
  from assms(1) obtain q1 q2 q3 where
    1: "(if op_is opr ''on''
         then then_do (Date_new rt v) (\<lambda>date.
                let nextDay = TimeClip (map_option (\<lambda>t. t + 24 * 60 * 60 * 1000) (getTime date))
                in Inr (assign key (Ops [(''$gte'', D date), (''$lt'', D nextDay)]) q))
         else Inr q) = Inr q1"
    and 2: "(if op_is opr ''before''
             then then_do (Date_new rt v) (\<lambda>d. Inr (assign key (Ops [(''$lt'', D d)]) q1))
             else Inr q1) = Inr q2"
    and 3: "(if op_is opr ''after''
             then then_do (Date_new rt v) (\<lambda>d. Inr (assign key (Ops [(''$gt'', D d)]) q2))
             else Inr q2) = Inr q3"
    and 4: "(case v2 of
               Some w \<Rightarrow>
                 if op_is opr ''between''
                 then then_do (Date_new rt v) (\<lambda>d.
                      then_do (Date_new rt w) (\<lambda>d2.
                        Inr (assign key (Ops [(''$gte'', D d), (''$lte'', D d2)]) q3)))
                 else Inr q3
             | None \<Rightarrow> Inr q3) = Inr q'"
    unfolding temporal_case_def then_do_Inr by blast
  from 1 assms(2) have a: "map_of q1 k = map_of q k"
    by (auto simp: then_do_Inr Let_def map_of_assign split: if_splits)
  from 2 assms(2) have b: "map_of q2 k = map_of q1 k"
    by (auto simp: then_do_Inr map_of_assign split: if_splits)
  from 3 assms(2) have c: "map_of q3 k = map_of q2 k"
    by (auto simp: then_do_Inr map_of_assign split: if_splits)
  from 4 assms(2) have d: "map_of q' k = map_of q3 k"
    by (auto simp: then_do_Inr map_of_assign split: if_splits option.splits)
  from a b c d show ?thesis by simp
qed

lemma boolean_case_other: "k \<noteq> key \<Longrightarrow> map_of (boolean_case key opr v q) k = map_of q k"
  by (simp add: boolean_case_def map_of_assign)

lemma step_other_key:
  assumes "filter_step rt key e q = Inr q'" and "k \<noteq> key"
  shows "map_of q' k = map_of q k"
proof (cases e)
  case (JObj kvs)
  show ?thesis
  proof (cases "map_of kvs ''value''")
    case None
    then show ?thesis using assms JObj by (simp add: step_object)
  next
    case (Some v)
    show ?thesis
    proof (cases "truthy (map_of kvs ''operator'')")
      case False
      then show ?thesis using assms JObj Some by (simp add: step_object)
    next
      case True
      show ?thesis
      proof (cases key rule: key_class)
        case textual
        with assms show ?thesis unfolding JObj step_object
          by (simp add: Some True text_case_other)
      next
        case enum
        with assms show ?thesis unfolding JObj step_object
          by (auto simp: Some True enum_case_other)
      next
        case num
        with assms show ?thesis unfolding JObj step_object
          by (auto simp: Some True numeric_case_other)
      next
        case tmp
        with assms show ?thesis unfolding JObj step_object
          by (simp add: Some True temporal_case_other)
      next
        case bool
        with assms show ?thesis unfolding JObj step_object
          by (auto simp: Some True boolean_case_other)
      next
        case other
        with assms show ?thesis unfolding JObj step_object
          by (auto simp: Some True)
      qed
    qed
  qed
qed (use assms in \<open>simp_all add: step_not_object\<close>)

lemma text_case_throws:
  "text_case rt key opr v q = Inl err \<longleftrightarrow> op_is opr ''contains'' \<and> RegExp_new rt v ''i'' = Inl err"
  by (auto simp: text_case_def Let_def split: sum.splits)

lemma temporal_case_throws:
  "temporal_case rt key opr v v2 q = Inl err \<longleftrightarrow>
     first_error rt
       (if list_ex (op_is opr) [''on'', ''before'', ''after''] then [New_Date v]
        else if op_is opr ''between''
          then (case v2 of None \<Rightarrow> [] | Some w \<Rightarrow> [New_Date v, New_Date w])
        else []) = Some err"
proof -
  consider (on) "opr = Some (JStr ''on'')" | (before) "opr = Some (JStr ''before'')"
    | (after) "opr = Some (JStr ''after'')" | (between) "opr = Some (JStr ''between'')"
    | (none) "\<not> op_is opr ''on''" "\<not> op_is opr ''before''" "\<not> op_is opr ''after''"
             "\<not> op_is opr ''between''"
    unfolding op_is_def by blast
  then show ?thesis
  proof cases
    case on
    then show ?thesis
      by (auto simp: temporal_case_def then_do_def op_is_def call_error_def Let_def
            split: sum.splits option.splits)
  next
    case before
    then show ?thesis
      by (auto simp: temporal_case_def then_do_def op_is_def call_error_def
            split: sum.splits option.splits)
  next
    case after
    then show ?thesis
      by (auto simp: temporal_case_def then_do_def op_is_def call_error_def
            split: sum.splits option.splits)
  next
    case between
    then show ?thesis
      by (auto simp: temporal_case_def then_do_def op_is_def call_error_def
            split: sum.splits option.splits)
  next
    case none
    then show ?thesis
      by (simp add: temporal_case_unlisted)
  qed
qed

lemma step_throws:
  "filter_step rt key e q = Inl err \<longleftrightarrow> first_error rt (constructor_calls key e) = Some err"
proof (cases e)
  case (JObj kvs)
  show ?thesis
  proof (cases "map_of kvs ''value''")
    case None
    then show ?thesis by (simp add: JObj step_object constructor_calls_def)
  next
    case (Some v)
    show ?thesis
    proof (cases "key \<in> set text_fields")
      case True
      have "op_is (map_of kvs ''operator'') ''contains'' \<Longrightarrow> truthy (map_of kvs ''operator'')"
        by (simp add: op_is_def)
      with True show ?thesis
        unfolding JObj step_object
        by (auto simp: Some constructor_calls_def text_case_throws call_error_def
              split: sum.splits)
    next
      case nt: False
      show ?thesis
      proof (cases "key \<in> set temporal_fields")
        case True
        have t: "truthy (map_of kvs ''operator'')"
          if "list_ex (op_is (map_of kvs ''operator'')) [''on'', ''before'', ''after''] \<or>
              op_is (map_of kvs ''operator'') ''between''"
          using that by (auto simp: op_is_def)
        show ?thesis
        proof (cases "truthy (map_of kvs ''operator'')")
          case tr: True
          with True temporal_only[OF True] show ?thesis
            unfolding JObj step_object
            by (simp add: Some constructor_calls_def temporal_case_throws)
        next
          case False
          with t have "\<not> list_ex (op_is (map_of kvs ''operator'')) [''on'', ''before'', ''after'']"
            "\<not> op_is (map_of kvs ''operator'') ''between''"
            by blast+
          with False True temporal_only[OF True] show ?thesis
            unfolding JObj step_object
            by (simp add: Some constructor_calls_def)
        qed
      next
        case False
        with nt show ?thesis
          unfolding JObj step_object
          by (simp add: Some constructor_calls_def)
      qed
    qed
  qed
qed (simp_all add: step_not_object constructor_calls_def)

lemma first_error_append:
  "first_error rt (xs @ ys) =
     (case first_error rt xs of Some e \<Rightarrow> Some e | None \<Rightarrow> first_error rt ys)"
  by (induction xs) (simp_all split: option.splits)

lemma run_throws:
  "run_entries rt es q = Inl err \<longleftrightarrow> first_error rt (all_calls es) = Some err"
proof (induction es arbitrary: q)
  case Nil
  then show ?case by (simp add: all_calls_def)
next
  case (Cons a es)
  obtain key e where a: "a = (key, e)" by (cases a)
  have c: "all_calls ((key, e) # es) = constructor_calls key e @ all_calls es"
    by (simp add: all_calls_def)
  show ?case
  proof (cases "filter_step rt key e q")
    case (Inl e1)
    then have "first_error rt (constructor_calls key e) = Some e1"
      by (simp add: step_throws)
    with Inl show ?thesis by (simp add: a c first_error_append)
  next
    case (Inr q1)
    have "first_error rt (constructor_calls key e) = None"
    proof (cases "first_error rt (constructor_calls key e)")
      case (Some e1)
      then have "filter_step rt key e q = Inl e1" by (simp add: step_throws)
      with Inr show ?thesis by simp
    qed simp
    with Inr Cons.IH[of q1] show ?thesis by (simp add: a c first_error_append)
  qed
qed

lemma run_other_key:
  "run_entries rt es q = Inr q' \<Longrightarrow> k \<notin> fst ` set es \<Longrightarrow> map_of q' k = map_of q k"
proof (induction es arbitrary: q)
  case Nil
  then show ?case by simp
next
  case (Cons a es)
  obtain key e where a: "a = (key, e)" by (cases a)
  from Cons.prems obtain q1 where s: "filter_step rt key e q = Inr q1"
    and r: "run_entries rt es q1 = Inr q'"
    by (auto simp: a split: sum.splits)
  from Cons.prems have "k \<noteq> key" "k \<notin> fst ` set es" by (auto simp: a)
  with Cons.IH[OF r] step_other_key[OF s] show ?case by simp
qed

lemma run_malformed:
  "run_entries rt es q = Inr q' \<Longrightarrow> distinct (map fst es) \<Longrightarrow> (k, e) \<in> set es \<Longrightarrow>
   malformed k e \<Longrightarrow> map_of q' k = map_of q k"
proof (induction es arbitrary: q)
  case Nil
  then show ?case by simp
next
  case (Cons a es)
  obtain key e1 where a: "a = (key, e1)" by (cases a)
  from Cons.prems(1) obtain q1 where s: "filter_step rt key e1 q = Inr q1"
    and r: "run_entries rt es q1 = Inr q'"
    by (auto simp: a split: sum.splits)
  from Cons.prems(2) have d: "key \<notin> fst ` set es" "distinct (map fst es)" by (auto simp: a)
  show ?case
  proof (cases "(k, e) = (key, e1)")
    case True
    with Cons.prems(4) s have "q1 = q" by (simp add: step_malformed)
    moreover from True d have "k \<notin> fst ` set es" by simp
    ultimately show ?thesis using run_other_key[OF r] by simp
  next
    case False
    with Cons.prems(3) have mem: "(k, e) \<in> set es" by (auto simp: a)
    then have "k \<in> fst ` set es" by force
    with d have "k \<noteq> key" by auto
    with Cons.IH[OF r d(2) mem Cons.prems(4)] step_other_key[OF s] show ?thesis by simp
  qed
qed

lemma join_elements_error:
  assumes "\<And>x e. x \<in> set xs \<Longrightarrow> ToString rt x = Inl e \<Longrightarrow> e = Error ''TypeError''"
      and "join_elements rt xs = Inl e"
  shows "e = Error ''TypeError''"
  using assms
proof (induction xs)
  case Nil
  then show ?case by simp
next
  case (Cons x xs)
  show ?case
  proof (cases "case x of JNull \<Rightarrow> Inr [] | _ \<Rightarrow> ToString rt x")
    case (Inl e1)
    with Cons.prems(2) have e: "e = e1" by simp
    from Inl have "ToString rt x = Inl e1" by (cases x) simp_all
    with Cons.prems(1)[of x e1] e show ?thesis by simp
  next
    case (Inr s)
    show ?thesis
    proof (cases xs)
      case Nil
      with Inr Cons.prems(2) show ?thesis by simp
    next
      case (Cons y ys)
      with Inr Cons.prems(2) have "join_elements rt xs = Inl e"
        by (simp split: sum.splits)
      with Cons.IH Cons.prems(1) show ?thesis by auto
    qed
  qed
qed

lemma ToString_error: "ToString rt v = Inl e \<Longrightarrow> e = Error ''TypeError''"
proof (induction v arbitrary: e)
  case (JArr xs)
  then show ?case using join_elements_error[of xs rt e] by simp
next
  case (JObj kvs)
  then show ?case by (simp split: if_splits)
qed simp_all

lemma call_error_names:
  "call_error rt c = Some e \<Longrightarrow> e = Error ''SyntaxError'' \<or> e = Error ''TypeError''"
proof (cases c)
  case (New_RegExp v)
  assume "call_error rt c = Some e"
  with New_RegExp have "RegExp_new rt v ''i'' = Inl e"
    by (simp add: call_error_def split: sum.splits)
  then show ?thesis
    by (auto simp: RegExp_new_def split: sum.splits if_splits dest: ToString_error)
next
  case (New_Date v)
  assume "call_error rt c = Some e"
  with New_Date have "Date_new rt v = Inl e"
    by (simp add: call_error_def split: sum.splits)
  then have "ToString rt v = Inl e"
    by (cases v) (auto simp: Date_new_def split: sum.splits if_splits)
  then show ?thesis by (simp add: ToString_error)
qed

lemma first_error_names:
  "first_error rt cs = Some e \<Longrightarrow> e = Error ''SyntaxError'' \<or> e = Error ''TypeError''"
  by (induction cs) (auto split: option.splits dest: call_error_names)


lemma list_leads_invalid_filters:
  assumes "validate_list req = []"
      and "q_filters req = Some (JObj kvs) \<or>
           (\<exists>s. s \<noteq> [] \<and> q_filters req = Some (JStr s) \<and> JSON_parse rt s = Inr (JObj kvs))"
      and "buildFilterQuery rt (JObj kvs) = Inl err"
  shows "list_leads rt st req = Status 400 (ErrorMsg ''Invalid filters format'')"
  using assms by (auto simp: list_leads_def Let_def request_query_def filters_query_def)

text \<open>
  C1 (as amended). Compiling a filters object throws only when a constructor that an
  entry leads to throws on the value supplied: \<^verbatim>\<open>new RegExp(value, 'i')\<close> for
  \<^verbatim>\<open>contains\<close> on a free-text field, \<^verbatim>\<open>new Date\<close> for an operator of a temporal
  field. The error is then that of the first such call, a \<^verbatim>\<open>SyntaxError\<close> or a
  \<^verbatim>\<open>TypeError\<close>, and the list route answers every request that passes validation
  and carries these filters, as an object or as the JSON text of one, with status 400
  and the error \<^verbatim>\<open>Invalid filters format\<close>; otherwise a query is returned. An entry
  that is not an object, lacks \<^verbatim>\<open>operator\<close> or \<^verbatim>\<open>value\<close>, names an unknown
  field or has an operator not listed for its field leads to no constructor call,
  never throws and leaves the query as it was, so the query returned has no predicate
  for its field.
\<close>

theorem buildFilterQuery_throws_only_from_constructors:
  assumes "distinct (map fst kvs)"
  shows "(\<forall>key e q. malformed key e \<longrightarrow>
            filter_step rt key e q = Inr q \<and> constructor_calls key e = []) \<and>
         (case first_error rt (all_calls kvs) of
            Some err \<Rightarrow>
              buildFilterQuery rt (JObj kvs) = Inl err \<and>
              (err = Error ''SyntaxError'' \<or> err = Error ''TypeError'') \<and>
              (\<forall>st req. validate_list req = [] \<and>
                 (q_filters req = Some (JObj kvs) \<or>
                  (\<exists>s. s \<noteq> [] \<and> q_filters req = Some (JStr s) \<and>
                       JSON_parse rt s = Inr (JObj kvs))) \<longrightarrow>
                 list_leads rt st req = Status 400 (ErrorMsg ''Invalid filters format''))
          | None \<Rightarrow>
              \<exists>q. buildFilterQuery rt (JObj kvs) = Inr q \<and>
                  list_all (\<lambda>(key, e). malformed key e \<longrightarrow> map_of q key = None) kvs)"
proof -
  have steps: "\<forall>key e q. malformed key e \<longrightarrow>
            filter_step rt key e q = Inr q \<and> constructor_calls key e = []"
    by (simp add: step_malformed malformed_no_calls)
  have rest: "case first_error rt (all_calls kvs) of
            Some err \<Rightarrow>
              buildFilterQuery rt (JObj kvs) = Inl err \<and>
              (err = Error ''SyntaxError'' \<or> err = Error ''TypeError'') \<and>
              (\<forall>st req. validate_list req = [] \<and>
                 (q_filters req = Some (JObj kvs) \<or>
                  (\<exists>s. s \<noteq> [] \<and> q_filters req = Some (JStr s) \<and>
                       JSON_parse rt s = Inr (JObj kvs))) \<longrightarrow>
                 list_leads rt st req = Status 400 (ErrorMsg ''Invalid filters format''))
          | None \<Rightarrow>
              \<exists>q. buildFilterQuery rt (JObj kvs) = Inr q \<and>
                  list_all (\<lambda>(key, e). malformed key e \<longrightarrow> map_of q key = None) kvs"
  proof (cases "first_error rt (all_calls kvs)")
    case None
    have "\<exists>q. run_entries rt kvs [] = Inr q"
    proof (cases "run_entries rt kvs []")
      case (Inl err)
      with None show ?thesis by (simp add: run_throws)
    qed blast
    then obtain q where q: "run_entries rt kvs [] = Inr q" by blast
    have "list_all (\<lambda>(key, e). malformed key e \<longrightarrow> map_of q key = None) kvs"
      unfolding list_all_iff
    proof (clarify)
      fix key e assume "(key, e) \<in> set kvs" "malformed key e"
      with run_malformed[OF q assms] show "map_of q key = None" by simp
    qed
    with q None show ?thesis by (simp add: buildFilterQuery_def)
  next
    case (Some err)
    then have "run_entries rt kvs [] = Inl err" by (simp add: run_throws)
    then have b: "buildFilterQuery rt (JObj kvs) = Inl err" by (simp add: buildFilterQuery_def)
    have "\<forall>st req. validate_list req = [] \<and>
                 (q_filters req = Some (JObj kvs) \<or>
                  (\<exists>s. s \<noteq> [] \<and> q_filters req = Some (JStr s) \<and>
                       JSON_parse rt s = Inr (JObj kvs))) \<longrightarrow>
                 list_leads rt st req = Status 400 (ErrorMsg ''Invalid filters format'')"
      using list_leads_invalid_filters[OF _ _ b] by blast
    with Some b first_error_names[OF Some] show ?thesis by simp
  qed
  from steps rest show ?thesis by blast
qed

lemma example_filters_calls: "first_error example_rt (all_calls example_filters) = None"
  by (simp add: all_calls_def example_filters_def constructor_calls_def text_fields_def
        temporal_fields_def op_is_def call_error_def RegExp_new_def example_rt_def)

lemma example_bad_filters_calls:
  "first_error example_rt (all_calls example_bad_filters) = Some (Error ''SyntaxError'')"
  by (simp add: all_calls_def example_bad_filters_def constructor_calls_def text_fields_def
        temporal_fields_def op_is_def call_error_def RegExp_new_def example_rt_def)

theorem buildFilterQuery_throws_only_from_constructors_witness:
  "distinct (map fst example_filters) \<and>
   first_error example_rt (all_calls example_filters) = None \<and>
   malformed ''company'' (JStr ''x'') \<and>
   malformed ''city'' (JObj [(''value'', JStr ''Paris'')]) \<and>
   malformed ''state'' (JObj [(''operator'', JStr ''equals'')]) \<and>
   malformed ''nickname'' (JObj [(''operator'', JStr ''equals''), (''value'', JStr ''bob'')]) \<and>
   malformed ''score'' (JObj [(''operator'', JStr ''contains''), (''value'', JNum 5)]) \<and>
   (\<exists>q. buildFilterQuery example_rt (JObj example_filters) = Inr q \<and>
        map_of q ''company'' = None \<and> map_of q ''city'' = None \<and> map_of q ''state'' = None \<and>
        map_of q ''nickname'' = None \<and> map_of q ''score'' = None) \<and>
   distinct (map fst example_bad_filters) \<and>
   first_error example_rt (all_calls example_bad_filters) = Some (Error ''SyntaxError'') \<and>
   validate_list example_bad_request = [] \<and>
   q_filters example_bad_request = Some (JObj example_bad_filters) \<and>
   buildFilterQuery example_rt (JObj example_bad_filters) = Inl (Error ''SyntaxError'') \<and>
   list_leads example_rt example_store example_bad_request
     = Status 400 (ErrorMsg ''Invalid filters format'')"
proof -
  have d: "distinct (map fst example_filters)"
    by (simp add: example_filters_def)
  have m: "malformed ''company'' (JStr ''x'')"
    "malformed ''city'' (JObj [(''value'', JStr ''Paris'')])"
    "malformed ''state'' (JObj [(''operator'', JStr ''equals'')])"
    "malformed ''nickname'' (JObj [(''operator'', JStr ''equals''), (''value'', JStr ''bob'')])"
    "malformed ''score'' (JObj [(''operator'', JStr ''contains''), (''value'', JNum 5)])"
    by (simp_all add: malformed_def listed_operators_def text_fields_def enum_fields_def
          numeric_fields_def temporal_fields_def op_is_def)
  from buildFilterQuery_throws_only_from_constructors[OF d, of example_rt] example_filters_calls
  obtain q where q: "buildFilterQuery example_rt (JObj example_filters) = Inr q"
    and a: "list_all (\<lambda>(key, e). malformed key e \<longrightarrow> map_of q key = None) example_filters"
    by auto
  from a m have "map_of q ''company'' = None \<and> map_of q ''city'' = None \<and> map_of q ''state'' = None \<and>
        map_of q ''nickname'' = None \<and> map_of q ''score'' = None"
    by (simp add: example_filters_def)
  with d m q example_filters_calls
  have good: "distinct (map fst example_filters) \<and>
   first_error example_rt (all_calls example_filters) = None \<and>
   malformed ''company'' (JStr ''x'') \<and>
   malformed ''city'' (JObj [(''value'', JStr ''Paris'')]) \<and>
   malformed ''state'' (JObj [(''operator'', JStr ''equals'')]) \<and>
   malformed ''nickname'' (JObj [(''operator'', JStr ''equals''), (''value'', JStr ''bob'')]) \<and>
   malformed ''score'' (JObj [(''operator'', JStr ''contains''), (''value'', JNum 5)]) \<and>
   (\<exists>q. buildFilterQuery example_rt (JObj example_filters) = Inr q \<and>
        map_of q ''company'' = None \<and> map_of q ''city'' = None \<and> map_of q ''state'' = None \<and>
        map_of q ''nickname'' = None \<and> map_of q ''score'' = None)"
    by blast
  have d': "distinct (map fst example_bad_filters)"
    by (simp add: example_bad_filters_def)
  have v: "validate_list example_bad_request = []"
    by (simp add: validate_list_def example_bad_request_def)
  have f: "q_filters example_bad_request = Some (JObj example_bad_filters)"
    by (simp add: example_bad_request_def)
  from buildFilterQuery_throws_only_from_constructors[OF d', of example_rt]
    example_bad_filters_calls
  have b: "buildFilterQuery example_rt (JObj example_bad_filters) = Inl (Error ''SyntaxError'')"
    and r: "\<forall>st req. validate_list req = [] \<and>
                 (q_filters req = Some (JObj example_bad_filters) \<or>
                  (\<exists>s. s \<noteq> [] \<and> q_filters req = Some (JStr s) \<and>
                       JSON_parse example_rt s = Inr (JObj example_bad_filters))) \<longrightarrow>
                 list_leads example_rt st req = Status 400 (ErrorMsg ''Invalid filters format'')"
    by simp_all
  from r v f have "list_leads example_rt example_store example_bad_request
     = Status 400 (ErrorMsg ''Invalid filters format'')"
    by blast
  with good d' example_bad_filters_calls v f b show ?thesis by blast
qed

lemma build_single:
  "buildFilterQuery rt (JObj [(key, e)]) = filter_step rt key e []"
  by (simp add: buildFilterQuery_def split: sum.splits)

text \<open>
  C1 as stated fails: for \<^verbatim>\<open>{email: {operator: "contains", value: "("}}\<close> the
  \<^verbatim>\<open>RegExp\<close> constructor meets an unterminated group, and for
  \<^verbatim>\<open>{createdAt: {operator: "on", value: {toString: 1}}}\<close> the \<^verbatim>\<open>Date\<close>
  constructor cannot convert the value; the compiler throws.
\<close>

theorem buildFilterQuery_total_counterexample:
  "buildFilterQuery example_rt
     (JObj [(''email'', JObj [(''operator'', JStr ''contains''), (''value'', JStr ''('')])])
   = Inl (Error ''SyntaxError'') \<and>
   buildFilterQuery example_rt
     (JObj [(''createdAt'', JObj [(''operator'', JStr ''on''),
                                  (''value'', JObj [(''toString'', JNum 1)])])])
   = Inl (Error ''TypeError'')"
  by (simp add: build_single step_object text_fields_def enum_fields_def numeric_fields_def
        temporal_fields_def text_case_def temporal_case_def then_do_def op_is_def
        RegExp_new_def Date_new_def example_rt_def)

lemma step_equals_null:
  assumes "map_of kvs ''operator'' = Some (JStr ''equals'')" and "map_of kvs ''value'' = Some JNull"
  shows "filter_step rt key (JObj kvs) [] =
     Inr (if key \<in> set (text_fields @ enum_fields @ numeric_fields) then [(key, Val JNull)]
          else if key = ''isQualified'' then [(key, Val (JBool False))]
          else [])"
proof (cases key rule: key_class)
  case textual
  then show ?thesis unfolding step_object using assms
    by (simp add: text_case_def op_is_def assign_def)
next
  case enum
  then show ?thesis unfolding step_object using assms
    by (simp add: enum_case_def op_is_def assign_def)
next
  case num
  then show ?thesis unfolding step_object using assms
    by (simp add: numeric_case_def op_is_def assign_def Let_def split: option.splits)
next
  case tmp
  moreover from tmp have "key \<noteq> ''isQualified''" using isQualified_only by auto
  ultimately show ?thesis unfolding step_object using assms
    by (simp add: temporal_case_def then_do_def op_is_def Let_def split: option.splits)
next
  case bool
  then show ?thesis unfolding step_object using assms isQualified_only
    by (simp add: boolean_case_def op_is_def assign_def)
next
  case other
  then show ?thesis unfolding step_object using assms
    by simp
qed

text \<open>
  C9 (as amended). An entry whose \<^verbatim>\<open>value\<close> is \<^verbatim>\<open>null\<close> passes the guard
  \<^verbatim>\<open>value === undefined\<close> and goes through the switch. With the operator
  \<^verbatim>\<open>equals\<close> it compiles to equality with \<^verbatim>\<open>null\<close> for the free-text, enum and
  numeric fields, to equality with \<^verbatim>\<open>false\<close> for \<^verbatim>\<open>isQualified\<close>, and to no
  predicate for the temporal fields, which have no \<^verbatim>\<open>equals\<close>; their own
  operators take \<^verbatim>\<open>null\<close> too: \<^verbatim>\<open>before\<close> compiles to
  \<^verbatim>\<open>{ $lt: new Date(null) }\<close>, the epoch.
\<close>

theorem null_value_not_dropped:
  assumes "map_of kvs ''value'' = Some JNull"
  shows "(map_of kvs ''operator'' = Some (JStr ''equals'') \<longrightarrow>
            buildFilterQuery rt (JObj [(key, JObj kvs)]) =
              Inr (if key \<in> set (text_fields @ enum_fields @ numeric_fields) then [(key, Val JNull)]
                   else if key = ''isQualified'' then [(key, Val (JBool False))]
                   else [])) \<and>
         (map_of kvs ''operator'' = Some (JStr ''before'') \<longrightarrow> key \<in> set temporal_fields \<longrightarrow>
            buildFilterQuery rt (JObj [(key, JObj kvs)]) =
              Inr [(key, Ops [(''$lt'', D (Date 0))])])"
proof -
  have "buildFilterQuery rt (JObj [(key, JObj kvs)]) =
              Inr [(key, Ops [(''$lt'', D (Date 0))])]"
    if "map_of kvs ''operator'' = Some (JStr ''before'')" "key \<in> set temporal_fields"
    using that assms temporal_only[of key] unfolding build_single step_object
    by (simp add: temporal_case_def then_do_def op_is_def assign_def Date_new_def TimeClip_def
          split: option.splits)
  then show ?thesis
    using assms by (simp add: build_single step_equals_null del: set_append)
qed

theorem null_value_not_dropped_witness:
  "map_of [(''operator'', JStr ''equals''), (''value'', JNull)] ''value'' = Some JNull \<and>
   buildFilterQuery example_rt
     (JObj [(''email'', JObj [(''operator'', JStr ''equals''), (''value'', JNull)])]) =
     Inr [(''email'', Val JNull)] \<and>
   buildFilterQuery example_rt
     (JObj [(''score'', JObj [(''operator'', JStr ''equals''), (''value'', JNull)])]) =
     Inr [(''score'', Val JNull)]"
proof -
  have v: "map_of [(''operator'', JStr ''equals''), (''value'', JNull)] ''value'' = Some JNull"
    by simp
  have t: "''email'' \<in> set (text_fields @ enum_fields @ numeric_fields)"
          "''score'' \<in> set (text_fields @ enum_fields @ numeric_fields)"
    by (simp_all add: text_fields_def numeric_fields_def)
  show ?thesis
    using null_value_not_dropped[OF v, of example_rt "''email''"]
          null_value_not_dropped[OF v, of example_rt "''score''"] t
    by (simp del: set_append)
qed

text \<open>
  C9 as stated fails for three of the eleven recognised fields: \<^verbatim>\<open>createdAt\<close> and
  \<^verbatim>\<open>lastActivityAt\<close> get no predicate, \<^verbatim>\<open>isQualified\<close> is compared with
  \<^verbatim>\<open>false\<close>.
\<close>

theorem equals_null_counterexample:
  "buildFilterQuery example_rt
     (JObj [(''createdAt'', JObj [(''operator'', JStr ''equals''), (''value'', JNull)])]) = Inr [] \<and>
   buildFilterQuery example_rt
     (JObj [(''lastActivityAt'', JObj [(''operator'', JStr ''equals''), (''value'', JNull)])]) = Inr [] \<and>
   buildFilterQuery example_rt
     (JObj [(''isQualified'', JObj [(''operator'', JStr ''equals''), (''value'', JNull)])]) =
     Inr [(''isQualified'', Val (JBool False))]"
  by (simp add: build_single step_object text_fields_def enum_fields_def numeric_fields_def
        temporal_fields_def temporal_case_def then_do_def boolean_case_def op_is_def assign_def)


lemma TimeClip_range: "TimeClip x = Date t \<Longrightarrow> \<bar>t\<bar> \<le> 8640000000000000"
  by (cases x) (auto simp: TimeClip_def split: if_splits; linarith)+

lemma TimeClip_int: "\<bar>t\<bar> \<le> 8640000000000000 \<Longrightarrow> TimeClip (Some (of_int t)) = Date t"
proof -
  assume a: "\<bar>t\<bar> \<le> 8640000000000000"
  then have "\<bar>of_int t :: rat\<bar> \<le> of_int 8640000000000000"
    by (simp only: of_int_abs[symmetric] of_int_le_iff)
  then have "\<not> \<bar>of_int t :: rat\<bar> > 8640000000000000" by simp
  then show ?thesis by (simp add: TimeClip_def)
qed

lemma Date_new_range: "Date_new rt v = Inr (Date t) \<Longrightarrow> \<bar>t\<bar> \<le> 8640000000000000"
  by (cases v) (auto simp: Date_new_def split: sum.splits dest: TimeClip_range)

lemma next_day:
  assumes "Date_new rt v = Inr (Date t)" and "t + day_ms \<le> 8640000000000000"
  shows "TimeClip (map_option (\<lambda>t. t + 24 * 60 * 60 * 1000) (getTime (Date t)))
         = Date (t + day_ms)"
proof -
  from assms(1) have "\<bar>t\<bar> \<le> 8640000000000000"
    by (rule Date_new_range)
  with assms(2) have "\<bar>t + day_ms\<bar> \<le> 8640000000000000"
    by (simp add: day_ms_def)
  from TimeClip_int[OF this] show ?thesis
    by (simp add: day_ms_def)
qed

lemma rel_in: "\<not> rel ''$in'' x b"
  by (simp add: rel_def)

lemma date_cond:
  "field dc key = D (Date x) \<Longrightarrow>
   doc_matches rt [(key, Ops [(opr, D (Date b))])] dc = rel opr x b"
  by (simp add: doc_matches_def op_match_def rel_in)

lemma date_cond2:
  "field dc key = D (Date x) \<Longrightarrow>
   doc_matches rt [(key, Ops [(opr, D (Date b)), (opr', D (Date b'))])] dc
     = (rel opr x b \<and> rel opr' x b')"
  by (simp add: doc_matches_def op_match_def rel_in)

lemma temporal_step:
  assumes "key \<in> set temporal_fields" and "map_of kvs ''value'' = Some v"
      and "map_of kvs ''operator'' = Some (JStr opr)" and "opr \<noteq> []"
  shows "buildFilterQuery rt (JObj [(key, JObj kvs)]) =
           temporal_case rt key (Some (JStr opr)) v (map_of kvs ''value2'') []"
  using assms temporal_only[of key] unfolding build_single step_object by simp

text \<open>
  C7. For a temporal field whose filter value denotes the instant \<open>t\<close>, and a lead
  whose field holds the date \<open>x\<close>: \<^verbatim>\<open>on\<close> compiles to
  \<^verbatim>\<open>{ $gte: t, $lt: t + 24h }\<close> and matches iff \<open>t \<le> x < t + 24h\<close> (when
  \<open>t + 24h\<close> is still a date); \<^verbatim>\<open>before\<close> matches iff \<open>x < t\<close>; \<^verbatim>\<open>after\<close>
  matches iff \<open>t < x\<close>; \<^verbatim>\<open>between\<close> yields no predicate without \<^verbatim>\<open>value2\<close>
  and, with a \<^verbatim>\<open>value2\<close> denoting \<open>t2\<close>, matches iff \<open>t \<le> x \<le> t2\<close>.
\<close>

theorem temporal_predicates:
  assumes key: "key \<in> set temporal_fields"
      and v: "map_of kvs ''value'' = Some v"
      and d: "Date_new rt v = Inr (Date t)"
      and x: "field dc key = D (Date x)"
  shows "(map_of kvs ''operator'' = Some (JStr ''on'') \<longrightarrow> t + day_ms \<le> 8640000000000000 \<longrightarrow>
            (\<exists>q. buildFilterQuery rt (JObj [(key, JObj kvs)]) = Inr q \<and>
                 q = [(key, Ops [(''$gte'', D (Date t)), (''$lt'', D (Date (t + day_ms)))])] \<and>
                 (doc_matches rt q dc \<longleftrightarrow> t \<le> x \<and> x < t + day_ms))) \<and>
         (map_of kvs ''operator'' = Some (JStr ''before'') \<longrightarrow>
            (\<exists>q. buildFilterQuery rt (JObj [(key, JObj kvs)]) = Inr q \<and>
                 q = [(key, Ops [(''$lt'', D (Date t))])] \<and>
                 (doc_matches rt q dc \<longleftrightarrow> x < t))) \<and>
         (map_of kvs ''operator'' = Some (JStr ''after'') \<longrightarrow>
            (\<exists>q. buildFilterQuery rt (JObj [(key, JObj kvs)]) = Inr q \<and>
                 q = [(key, Ops [(''$gt'', D (Date t))])] \<and>
                 (doc_matches rt q dc \<longleftrightarrow> t < x))) \<and>
         (map_of kvs ''operator'' = Some (JStr ''between'') \<longrightarrow>
            (case map_of kvs ''value2'' of
               None \<Rightarrow> buildFilterQuery rt (JObj [(key, JObj kvs)]) = Inr []
             | Some v2 \<Rightarrow>
                 (\<forall>t2. Date_new rt v2 = Inr (Date t2) \<longrightarrow>
                    (\<exists>q. buildFilterQuery rt (JObj [(key, JObj kvs)]) = Inr q \<and>
                         q = [(key, Ops [(''$gte'', D (Date t)), (''$lte'', D (Date t2))])] \<and>
                         (doc_matches rt q dc \<longleftrightarrow> t \<le> x \<and> x \<le> t2)))))"
proof -
  have on: "\<exists>q. buildFilterQuery rt (JObj [(key, JObj kvs)]) = Inr q \<and>
                 q = [(key, Ops [(''$gte'', D (Date t)), (''$lt'', D (Date (t + day_ms)))])] \<and>
                 (doc_matches rt q dc \<longleftrightarrow> t \<le> x \<and> x < t + day_ms)"
    if o: "map_of kvs ''operator'' = Some (JStr ''on'')" and r: "t + day_ms \<le> 8640000000000000"
  proof -
    have "buildFilterQuery rt (JObj [(key, JObj kvs)]) =
            Inr [(key, Ops [(''$gte'', D (Date t)), (''$lt'', D (Date (t + day_ms)))])]"
      unfolding temporal_step[OF key v o, simplified]
      using next_day[OF d r]
      by (simp add: temporal_case_def then_do_def op_is_def assign_def Let_def d split: option.splits)
    then show ?thesis by (simp add: date_cond2[OF x] rel_def)
  qed
  have before: "\<exists>q. buildFilterQuery rt (JObj [(key, JObj kvs)]) = Inr q \<and>
                 q = [(key, Ops [(''$lt'', D (Date t))])] \<and> (doc_matches rt q dc \<longleftrightarrow> x < t)"
    if o: "map_of kvs ''operator'' = Some (JStr ''before'')"
  proof -
    have "buildFilterQuery rt (JObj [(key, JObj kvs)]) = Inr [(key, Ops [(''$lt'', D (Date t))])]"
      unfolding temporal_step[OF key v o, simplified]
      by (simp add: temporal_case_def then_do_def op_is_def assign_def Let_def d split: option.splits)
    then show ?thesis by (simp add: date_cond[OF x] rel_def)
  qed
  have after: "\<exists>q. buildFilterQuery rt (JObj [(key, JObj kvs)]) = Inr q \<and>
                 q = [(key, Ops [(''$gt'', D (Date t))])] \<and> (doc_matches rt q dc \<longleftrightarrow> t < x)"
    if o: "map_of kvs ''operator'' = Some (JStr ''after'')"
  proof -
    have "buildFilterQuery rt (JObj [(key, JObj kvs)]) = Inr [(key, Ops [(''$gt'', D (Date t))])]"
      unfolding temporal_step[OF key v o, simplified]
      by (simp add: temporal_case_def then_do_def op_is_def assign_def Let_def d split: option.splits)
    then show ?thesis by (simp add: date_cond[OF x] rel_def)
  qed
  have between: "case map_of kvs ''value2'' of
               None \<Rightarrow> buildFilterQuery rt (JObj [(key, JObj kvs)]) = Inr []
             | Some v2 \<Rightarrow>
                 (\<forall>t2. Date_new rt v2 = Inr (Date t2) \<longrightarrow>
                    (\<exists>q. buildFilterQuery rt (JObj [(key, JObj kvs)]) = Inr q \<and>
                         q = [(key, Ops [(''$gte'', D (Date t)), (''$lte'', D (Date t2))])] \<and>
                         (doc_matches rt q dc \<longleftrightarrow> t \<le> x \<and> x \<le> t2)))"
    if o: "map_of kvs ''operator'' = Some (JStr ''between'')"
  proof (cases "map_of kvs ''value2''")
    case None
    then show ?thesis
      unfolding temporal_step[OF key v o, simplified]
      by (simp add: temporal_case_def then_do_def op_is_def)
  next
    case (Some v2)
    have "buildFilterQuery rt (JObj [(key, JObj kvs)]) =
            Inr [(key, Ops [(''$gte'', D (Date t)), (''$lte'', D (Date t2))])]"
      if "Date_new rt v2 = Inr (Date t2)" for t2
      unfolding temporal_step[OF key v o, simplified]
      using that by (simp add: temporal_case_def then_do_def op_is_def assign_def d Some)
    then show ?thesis by (simp add: Some date_cond2[OF x] rel_def)
  qed
  from on before after between show ?thesis by blast
qed


lemma example_date: "Date_new example_rt (JNum 1700000000000) = Inr (Date 1700000000000)"
  by (simp add: Date_new_def TimeClip_def)

theorem temporal_predicates_witness:
  "''createdAt'' \<in> set temporal_fields \<and>
   map_of example_day ''value'' = Some (JNum 1700000000000) \<and>
   map_of example_span ''value'' = Some (JNum 1700000000000) \<and>
   Date_new example_rt (JNum 1700000000000) = Inr (Date 1700000000000) \<and>
   field (example_lead ''a'' ''won'' 90) ''createdAt'' = D (Date 1700000000000) \<and>
   buildFilterQuery example_rt (JObj [(''createdAt'', JObj example_day)]) =
     Inr [(''createdAt'', Ops [(''$gte'', D (Date 1700000000000)), (''$lt'', D (Date 1700086400000))])] \<and>
   doc_matches example_rt
     [(''createdAt'', Ops [(''$gte'', D (Date 1700000000000)), (''$lt'', D (Date 1700086400000))])]
     (example_lead ''a'' ''won'' 90) \<and>
   buildFilterQuery example_rt (JObj [(''createdAt'', JObj example_span)]) =
     Inr [(''createdAt'', Ops [(''$gte'', D (Date 1700000000000)), (''$lte'', D (Date 1700000005000))])] \<and>
   doc_matches example_rt
     [(''createdAt'', Ops [(''$gte'', D (Date 1700000000000)), (''$lte'', D (Date 1700000005000))])]
     (example_lead ''a'' ''won'' 90)"
proof -
  have k: "''createdAt'' \<in> set temporal_fields" by (simp add: temporal_fields_def)
  have v: "map_of example_day ''value'' = Some (JNum 1700000000000)"
    by (simp add: example_day_def)
  have v': "map_of example_span ''value'' = Some (JNum 1700000000000)"
    by (simp add: example_span_def)
  have x: "field (example_lead ''a'' ''won'' 90) ''createdAt'' = D (Date 1700000000000)"
    by (simp add: field_def example_lead_def)
  have o: "map_of example_day ''operator'' = Some (JStr ''on'')"
    by (simp add: example_day_def)
  have o': "map_of example_span ''operator'' = Some (JStr ''between'')"
           "map_of example_span ''value2'' = Some (JNum 1700000005000)"
    by (simp_all add: example_span_def)
  have d2: "Date_new example_rt (JNum 1700000005000) = Inr (Date 1700000005000)"
    by (simp add: Date_new_def TimeClip_def)
  have r: "(1700000000000::int) + day_ms \<le> 8640000000000000" "(1700000000000::int) + day_ms = 1700086400000"
    by (simp_all add: day_ms_def)
  from temporal_predicates[OF k v example_date x] o r
  have a: "buildFilterQuery example_rt (JObj [(''createdAt'', JObj example_day)]) =
     Inr [(''createdAt'', Ops [(''$gte'', D (Date 1700000000000)), (''$lt'', D (Date 1700086400000))])] \<and>
     doc_matches example_rt
     [(''createdAt'', Ops [(''$gte'', D (Date 1700000000000)), (''$lt'', D (Date 1700086400000))])]
     (example_lead ''a'' ''won'' 90)"
    by simp
  from temporal_predicates[OF k v' example_date x] o' d2
  have b: "buildFilterQuery example_rt (JObj [(''createdAt'', JObj example_span)]) =
     Inr [(''createdAt'', Ops [(''$gte'', D (Date 1700000000000)), (''$lte'', D (Date 1700000005000))])] \<and>
     doc_matches example_rt
     [(''createdAt'', Ops [(''$gte'', D (Date 1700000000000)), (''$lte'', D (Date 1700000005000))])]
     (example_lead ''a'' ''won'' 90)"
    by simp
  from k v v' example_date x a b show ?thesis by blast
qed

subsection \<open>Statistics and the list\<close>

lemma numeric_values_all:
  "list_all has_score ds \<Longrightarrow> numeric_values ''score'' ds = map score_of ds"
  by (induction ds) (auto simp: numeric_values_def has_score_def score_of_def split: jsval.splits json.splits)

lemma stats_reply:
  "stats_overview st req =
     Status 200 (StatsBody (Stats (length (leads st)) (group_count ''status'' (leads st))
       (group_count ''source'' (leads st))
       (or_zero (case group_avg ''score'' (leads st) of [] \<Rightarrow> None | g # gs \<Rightarrow> g))))"
  by (simp add: stats_overview_def Let_def)

lemma or_zero_Some: "or_zero (Some a) = a"
  by (simp add: or_zero_def)

text \<open>
  C6. The statistics route always replies with status 200. On a store without leads
  \<^verbatim>\<open>avgScore\<close> is 0; on a store whose leads all hold a numeric score it is the
  mean of these scores.
\<close>

theorem stats_avgScore:
  "\<exists>s. stats_overview st req = Status 200 (StatsBody s) \<and>
       (leads st = [] \<longrightarrow> avgScore s = 0) \<and>
       (leads st \<noteq> [] \<longrightarrow> list_all has_score (leads st) \<longrightarrow>
          avgScore s = sum_list (map score_of (leads st)) / of_nat (length (leads st)))"
proof -
  let ?s = "Stats (length (leads st)) (group_count ''status'' (leads st))
       (group_count ''source'' (leads st))
       (or_zero (case group_avg ''score'' (leads st) of [] \<Rightarrow> None | g # gs \<Rightarrow> g))"
  have e: "leads st = [] \<longrightarrow> avgScore ?s = 0"
    by (simp add: group_avg_def or_zero_def)
  have m: "avgScore ?s = sum_list (map score_of (leads st)) / of_nat (length (leads st))"
    if ne: "leads st \<noteq> []" and sc: "list_all has_score (leads st)"
  proof -
    from ne obtain d ds where c: "leads st = d # ds" by (cases "leads st") auto
    have "numeric_values ''score'' (leads st) = map score_of (leads st)"
      using sc by (rule numeric_values_all)
    then show ?thesis
      by (simp add: group_avg_def c or_zero_Some Let_def)
  qed
  from e m stats_reply[of st req] show ?thesis by blast
qed

lemma example_scores: "list_all has_score (leads example_store)"
  by (simp add: example_store_def example_lead_def has_score_def field_def)

lemma example_sum: "sum_list (map score_of (leads example_store)) = 550"
  by (simp add: example_store_def example_lead_def score_of_def field_def)

theorem stats_avgScore_witness:
  "leads \<lparr>users = [], leads = []\<rparr> = [] \<and> leads example_store \<noteq> [] \<and>
   list_all has_score (leads example_store) \<and>
   (\<exists>s. stats_overview \<lparr>users = [], leads = []\<rparr> () = Status 200 (StatsBody s) \<and> avgScore s = 0) \<and>
   (\<exists>s. stats_overview example_store () = Status 200 (StatsBody s) \<and> avgScore s = 55)"
proof -
  have ne: "leads example_store \<noteq> []" by (simp add: example_store_def)
  have len: "length (leads example_store) = 10" by (simp add: example_store_def)
  from stats_avgScore[of "\<lparr>users = [], leads = []\<rparr>" "()"]
  have a: "\<exists>s. stats_overview \<lparr>users = [], leads = []\<rparr> () = Status 200 (StatsBody s) \<and> avgScore s = 0"
    by simp
  from stats_avgScore[of example_store "()"] ne example_scores
  have b: "\<exists>s. stats_overview example_store () = Status 200 (StatsBody s) \<and> avgScore s = 55"
    by (simp add: example_sum len)
  from a b ne example_scores show ?thesis by simp
qed


lemma length_insert_by: "length (insert_by le x xs) = Suc (length xs)"
  by (induction xs) simp_all

lemma length_Lead_sort: "length (Lead_sort sortBy sortOrder ds) = length ds"
  unfolding Lead_sort_def by (induction ds) (simp_all add: length_insert_by)

lemma list_leads_found:
  assumes "validate_list req = []" and "request_query rt req = Inr q"
      and "cast_error rt q = None"
      and "parseInt_or (q_page req) 1 = Some p" and "parseInt_or (q_limit req) 20 = Some L"
  shows "\<exists>found pg. list_leads rt st req = Status 200 (ListBody found pg) \<and>
           totalLeads pg = length (Lead_find rt st q) \<and>
           length found = min (nat L) (length (Lead_find rt st q) - nat ((p - 1) * L))"
  using assms
  by (simp add: list_leads_def Let_def mk_pagination_def Lead_countDocuments_def Lead_find_def
        length_Lead_sort)

lemma example_status_query:
  "request_query example_rt example_status_filter =
     Inr [(''status'', Ops [(''$in'', J (JArr [JStr ''won'', JStr ''lost'']))])]"
  by (simp add: request_query_def example_status_filter_def filters_query_def build_single
        step_object text_fields_def enum_fields_def enum_case_def op_is_def assign_def)

lemma example_status_found:
  "length (Lead_find example_rt example_store
     [(''status'', Ops [(''$in'', J (JArr [JStr ''won'', JStr ''lost'']))])]) = 7"
  by (simp add: Lead_find_def example_store_def example_lead_def doc_matches_def op_match_def
        field_def)

lemma example_status_groups:
  "group_count ''status'' (leads example_store) =
     [(J (JStr ''lost''), 3), (J (JStr ''new''), 3), (J (JStr ''won''), 4)]"
  by (simp add: group_count_def example_store_def example_lead_def field_def)

text \<open>
  C8. The statistics route gives the same reply whatever the request carries, and its
  four figures are computed over the whole collection. On the store of ten leads
  (four won, three lost, three new), the list filtered by status in {won, lost}
  returns seven records with \<^verbatim>\<open>totalLeads\<close> 7, while the statistics for the same
  request count ten leads: three lost, three new, four won.
\<close>

theorem stats_ignore_filters:
  "stats_overview st req = stats_overview st () \<and>
   (\<exists>s. stats_overview st req = Status 200 (StatsBody s) \<and>
        stats_totalLeads s = length (leads st) \<and>
        statusStats s = group_count ''status'' (leads st) \<and>
        sourceStats s = group_count ''source'' (leads st) \<and>
        avgScore s = or_zero (case group_avg ''score'' (leads st) of [] \<Rightarrow> None | g # gs \<Rightarrow> g)) \<and>
   (\<exists>found pg. list_leads example_rt example_store example_status_filter
                 = Status 200 (ListBody found pg) \<and>
        length found = 7 \<and> totalLeads pg = 7) \<and>
   (\<exists>s. stats_overview example_store example_status_filter = Status 200 (StatsBody s) \<and>
        stats_totalLeads s = 10 \<and>
        statusStats s = [(J (JStr ''lost''), 3), (J (JStr ''new''), 3), (J (JStr ''won''), 4)])"
proof -
  have v: "validate_list example_status_filter = []"
    by (simp add: validate_list_def example_status_filter_def)
  have p: "parseInt_or (q_page example_status_filter) 1 = Some 1"
    by (simp add: parseInt_or_def example_status_filter_def)
  have L: "parseInt_or (q_limit example_status_filter) 20 = Some 20"
    by (simp add: parseInt_or_def example_status_filter_def)
  have a: "cast_error example_rt
             [(''status'', Ops [(''$in'', J (JArr [JStr ''won'', JStr ''lost'']))])] = None"
    by (simp add: example_rt_def)
  from list_leads_found[OF v example_status_query a p L, of example_store]
  have l: "\<exists>found pg. list_leads example_rt example_store example_status_filter
                 = Status 200 (ListBody found pg) \<and> length found = 7 \<and> totalLeads pg = 7"
    by (auto simp: example_status_found)
  have len: "length (leads example_store) = 10" by (simp add: example_store_def)
  have s: "\<exists>s. stats_overview example_store example_status_filter = Status 200 (StatsBody s) \<and>
        stats_totalLeads s = 10 \<and>
        statusStats s = [(J (JStr ''lost''), 3), (J (JStr ''new''), 3), (J (JStr ''won''), 4)]"
    by (simp add: stats_reply example_status_groups len)
  have g: "stats_overview st req = stats_overview st ()"
    by (simp add: stats_reply)
  have w: "\<exists>s. stats_overview st req = Status 200 (StatsBody s) \<and>
        stats_totalLeads s = length (leads st) \<and>
        statusStats s = group_count ''status'' (leads st) \<and>
        sourceStats s = group_count ''source'' (leads st) \<and>
        avgScore s = or_zero (case group_avg ''score'' (leads st) of [] \<Rightarrow> None | g # gs \<Rightarrow> g)"
    by (simp add: stats_reply)
  from g w l s show ?thesis by blast
qed

subsection \<open>Updating a lead\<close>

lemma map_of_J: "map_of (map (\<lambda>(k, v). (k, J v)) kvs) k = map_option J (map_of kvs k)"
  by (induction kvs) auto

lemma valid_date:
  assumes "lastActivityAt_valid rt (Some a)" and "truthy (Some a)"
  shows "\<exists>t. Date_new rt a = Inr (Date t)"
proof -
  from assms(2) have "a \<noteq> JNull" "a \<noteq> JStr []" by auto
  with assms obtain date where d: "Date_new rt a = Inr date" and g: "getTime date \<noteq> None"
    by (auto simp: lastActivityAt_valid_def split: sum.splits)
  from g obtain t where "date = Date t" by (cases date) simp_all
  with d show ?thesis by simp
qed

lemma update_data_object:
  assumes "lastActivityAt_valid rt (map_of kvs ''lastActivityAt'')"
  shows "\<exists>upd. update_data rt (JObj kvs) = Inr upd \<and>
           (\<forall>k v. map_of kvs k = Some v \<longrightarrow>
              (if k = ''lastActivityAt'' \<and> truthy (Some v)
               then \<exists>t. Date_new rt v = Inr (Date t) \<and> map_of upd k = Some (D (Date t))
               else map_of upd k = Some (J v)))"
proof (cases "map_of kvs ''lastActivityAt''")
  case None
  then show ?thesis
    by (auto simp: update_data_def spread_def map_of_J Let_def)
next
  case (Some a)
  show ?thesis
  proof (cases "truthy (Some a)")
    case False
    with Some show ?thesis
      by (auto simp: update_data_def spread_def map_of_J Let_def)
  next
    case True
    from valid_date[OF _ True] assms Some obtain t where t: "Date_new rt a = Inr (Date t)"
      by auto
    with Some True show ?thesis
      by (auto simp: update_data_def spread_def map_of_J Let_def then_do_def update_conv')
  qed
qed

lemma update_data_other:
  assumes "\<not> is_object b"
  shows "\<exists>upd. update_data rt b = Inr upd"
  using assms by (cases b) (simp_all add: update_data_def Let_def)

lemma update_data_valid:
  assumes "lastActivityAt_valid rt (get_prop b ''lastActivityAt'')"
  shows "\<exists>upd. update_data rt b = Inr upd \<and>
           (\<forall>k v. get_prop b k = Some v \<longrightarrow>
              (if k = ''lastActivityAt'' \<and> truthy (Some v)
               then \<exists>t. Date_new rt v = Inr (Date t) \<and> map_of upd k = Some (D (Date t))
               else map_of upd k = Some (J v)))"
proof (cases b)
  case (JObj kvs)
  with assms update_data_object[of rt kvs] show ?thesis by simp
qed (use update_data_other[of b rt] in simp_all)

text \<open>
  C2. For a lead that exists and a payload that passed validation, the update route
  replies 200 with the updated lead, stored in place of the old one:
  \<^verbatim>\<open>updatedAt\<close> is the time of the update, \<^verbatim>\<open>createdAt\<close> and
  \<^verbatim>\<open>createdBy\<close> are those of the old lead whatever the payload supplies for them,
  and every other field that the payload supplies holds the supplied value
  (\<^verbatim>\<open>lastActivityAt\<close> as a date).
\<close>

theorem update_keeps_creation:
  assumes valid: "v_errors req = []"
      and date: "lastActivityAt_valid rt (get_prop (r_body req) ''lastActivityAt'')"
      and found: "find (\<lambda>d. d ''_id'' = Some (Oid (r_id req))) (leads st) = Some old"
  shows "\<exists>st' new.
           put_lead rt now st req =
             (st', Status 200 (LeadBody ''Lead updated successfully'' (populate st' new))) \<and>
           leads st' = map (\<lambda>d. if d ''_id'' = Some (Oid (r_id req)) then new else d) (leads st) \<and>
           new ''updatedAt'' = Some (D (Date now)) \<and>
           new ''createdAt'' = old ''createdAt'' \<and>
           new ''createdBy'' = old ''createdBy'' \<and>
           (\<forall>k v. get_prop (r_body req) k = Some v \<longrightarrow>
                  k \<notin> set [''createdAt'', ''createdBy'', ''_id'', ''updatedAt''] \<longrightarrow>
                  (if k = ''lastActivityAt'' \<and> truthy (Some v)
                   then \<exists>t. Date_new rt v = Inr (Date t) \<and> new k = Some (D (Date t))
                   else new k = Some (J v)))"
proof -
  from update_data_valid[OF date] obtain upd where
    upd: "update_data rt (r_body req) = Inr upd"
    and sup: "\<forall>k v. get_prop (r_body req) k = Some v \<longrightarrow>
              (if k = ''lastActivityAt'' \<and> truthy (Some v)
               then \<exists>t. Date_new rt v = Inr (Date t) \<and> map_of upd k = Some (D (Date t))
               else map_of upd k = Some (J v))"
    by blast
  let ?new = "apply_update now old upd"
  let ?st' = "st\<lparr>leads := map (\<lambda>d. if d ''_id'' = Some (Oid (r_id req)) then ?new else d) (leads st)\<rparr>"
  have r: "put_lead rt now st req =
             (?st', Status 200 (LeadBody ''Lead updated successfully'' (populate ?st' ?new)))"
    using valid found upd by (simp add: put_lead_def Lead_findByIdAndUpdate_def Let_def)
  have l: "leads ?st' = map (\<lambda>d. if d ''_id'' = Some (Oid (r_id req)) then ?new else d) (leads st)"
    by simp
  have u: "?new ''updatedAt'' = Some (D (Date now))"
    by (simp add: apply_update_def)
  have c: "?new ''createdAt'' = old ''createdAt''" "?new ''createdBy'' = old ''createdBy''"
    by (simp_all add: apply_update_def)
  have f: "\<forall>k v. get_prop (r_body req) k = Some v \<longrightarrow>
                  k \<notin> set [''createdAt'', ''createdBy'', ''_id'', ''updatedAt''] \<longrightarrow>
                  (if k = ''lastActivityAt'' \<and> truthy (Some v)
                   then \<exists>t. Date_new rt v = Inr (Date t) \<and> ?new k = Some (D (Date t))
                   else ?new k = Some (J v))"
  proof (intro allI impI)
    fix k v
    assume g: "get_prop (r_body req) k = Some v"
       and k: "k \<notin> set [''createdAt'', ''createdBy'', ''_id'', ''updatedAt'']"
    from k have n: "?new k = (case map_of upd k of Some v \<Rightarrow> Some v | None \<Rightarrow> old k)"
      by (simp add: apply_update_def)
    from sup g have "if k = ''lastActivityAt'' \<and> truthy (Some v)
               then \<exists>t. Date_new rt v = Inr (Date t) \<and> map_of upd k = Some (D (Date t))
               else map_of upd k = Some (J v)" by blast
    with n show "if k = ''lastActivityAt'' \<and> truthy (Some v)
                   then \<exists>t. Date_new rt v = Inr (Date t) \<and> ?new k = Some (D (Date t))
                   else ?new k = Some (J v)"
      by (auto split: if_splits)
  qed
  from r l u c f show ?thesis by blast
qed

lemma example_found:
  "find (\<lambda>d. d ''_id'' = Some (Oid (r_id example_update))) (leads example_store)
     = Some (example_lead ''a'' ''won'' 90)"
  by (simp add: example_update_def example_store_def example_lead_def)

lemma example_update_date:
  "lastActivityAt_valid example_rt (get_prop (r_body example_update) ''lastActivityAt'')"
  by (simp add: lastActivityAt_valid_def example_update_def Date_new_def TimeClip_def)

theorem update_keeps_creation_witness:
  "v_errors example_update = [] \<and>
   lastActivityAt_valid example_rt (get_prop (r_body example_update) ''lastActivityAt'') \<and>
   find (\<lambda>d. d ''_id'' = Some (Oid (r_id example_update))) (leads example_store)
     = Some (example_lead ''a'' ''won'' 90) \<and>
   get_prop (r_body example_update) ''status'' = Some (JStr ''qualified'') \<and>
   get_prop (r_body example_update) ''createdBy'' = Some (JStr ''u2'') \<and>
   (\<exists>st' new.
      put_lead example_rt 1700000600000 example_store example_update =
        (st', Status 200 (LeadBody ''Lead updated successfully'' (populate st' new))) \<and>
      new ''updatedAt'' = Some (D (Date 1700000600000)) \<and>
      new ''createdAt'' = Some (D (Date 1700000000000)) \<and>
      new ''createdBy'' = Some (Oid ''u1'') \<and>
      new ''status'' = Some (J (JStr ''qualified'')) \<and>
      new ''score'' = Some (J (JNum 95)) \<and>
      new ''lastActivityAt'' = Some (D (Date 1700000500000)))"
proof -
  have v: "v_errors example_update = []" by (simp add: example_update_def)
  have g: "get_prop (r_body example_update) ''status'' = Some (JStr ''qualified'')"
          "get_prop (r_body example_update) ''createdBy'' = Some (JStr ''u2'')"
          "get_prop (r_body example_update) ''score'' = Some (JNum 95)"
          "get_prop (r_body example_update) ''lastActivityAt'' = Some (JNum 1700000500000)"
    by (simp_all add: example_update_def)
  have o: "example_lead ''a'' ''won'' 90 ''createdAt'' = Some (D (Date 1700000000000))"
          "example_lead ''a'' ''won'' 90 ''createdBy'' = Some (Oid ''u1'')"
    by (simp_all add: example_lead_def)
  have d: "Date_new example_rt (JNum 1700000500000) = Inr (Date 1700000500000)"
    by (simp add: Date_new_def TimeClip_def)
  from update_keeps_creation[OF v example_update_date example_found, of 1700000600000]
  obtain st' new where
    r: "put_lead example_rt 1700000600000 example_store example_update =
        (st', Status 200 (LeadBody ''Lead updated successfully'' (populate st' new)))"
    and u: "new ''updatedAt'' = Some (D (Date 1700000600000))"
    and c: "new ''createdAt'' = example_lead ''a'' ''won'' 90 ''createdAt''"
           "new ''createdBy'' = example_lead ''a'' ''won'' 90 ''createdBy''"
    and f: "\<forall>k v. get_prop (r_body example_update) k = Some v \<longrightarrow>
                  k \<notin> set [''createdAt'', ''createdBy'', ''_id'', ''updatedAt''] \<longrightarrow>
                  (if k = ''lastActivityAt'' \<and> truthy (Some v)
                   then \<exists>t. Date_new example_rt v = Inr (Date t) \<and> new k = Some (D (Date t))
                   else new k = Some (J v))"
    by blast
  from f g(1) have s1: "new ''status'' = Some (J (JStr ''qualified''))" by force
  from f g(3) have s2: "new ''score'' = Some (J (JNum 95))" by force
  from f g(4) d have s3: "new ''lastActivityAt'' = Some (D (Date 1700000500000))" by force
  from v example_update_date example_found g(1,2) r u c o s1 s2 s3 show ?thesis by metis
qed

subsection \<open>The auth guard, the routers and the session\<close>

lemma request_token_cookie: "truthy (cookie_token req) \<Longrightarrow> request_token req = cookie_token req"
  by (simp add: request_token_def)

lemma request_token_none:
  "\<not> truthy (cookie_token req) \<Longrightarrow> authorization req = None \<Longrightarrow> request_token req = None"
  by (simp add: request_token_def)

lemma protect_no_token:
  "\<not> truthy (request_token req) \<Longrightarrow>
   protect env st req = Denied (Status 401 (ErrorMsg ''Access denied. No token provided.''))"
  by (cases "request_token req") (simp_all add: protect_def)

lemma protect_token:
  "request_token req = Some tok \<Longrightarrow> truthy (Some tok) \<Longrightarrow>
   protect env st req =
     (case jwt_verify env tok of
        Inl e \<Rightarrow> auth_failure e
      | Inr decoded \<Rightarrow>
          (case User_findById env st (get_prop decoded ''id'') of
             Inl e \<Rightarrow> auth_failure e
           | Inr None \<Rightarrow> Denied (Status 401 (ErrorMsg ''Invalid token. User not found.''))
           | Inr (Some user) \<Rightarrow> Granted (user(''password'' := None))))"
  by (simp add: protect_def)

lemma auth_failure_other:
  "err_name e \<noteq> ''JsonWebTokenError'' \<Longrightarrow> err_name e \<noteq> ''TokenExpiredError'' \<Longrightarrow>
   auth_failure e = Denied (Status 500 (ErrorMsg ''Server error during authentication.''))"
  by (simp add: auth_failure_def)

text \<open>
  C4. The guard's failures are distinct and cover every case: without a token in
  the cookie or the header it replies 401 "no token"; when verification throws
  \<^verbatim>\<open>JsonWebTokenError\<close> (malformed token, invalid signature) 401 "invalid token";
  when it throws \<^verbatim>\<open>TokenExpiredError\<close> 401 "token expired"; when the token is
  valid and no user is found 401 "user not found"; for any other error thrown by the
  verification or the lookup 500; when a user is found it grants. A cookie that
  carries a token is the token used, whatever the header holds.
\<close>

theorem protect_outcomes:
  "distinct [''Access denied. No token provided.'', ''Invalid token.'', ''Token expired.'',
             ''Invalid token. User not found.'', ''Server error during authentication.''] \<and>
   (\<not> truthy (cookie_token req) \<longrightarrow> authorization req = None \<longrightarrow>
      protect env st req = Denied (Status 401 (ErrorMsg ''Access denied. No token provided.''))) \<and>
   (\<not> truthy (request_token req) \<longrightarrow>
      protect env st req = Denied (Status 401 (ErrorMsg ''Access denied. No token provided.''))) \<and>
   (truthy (cookie_token req) \<longrightarrow> request_token req = cookie_token req) \<and>
   (\<forall>tok. request_token req = Some tok \<longrightarrow> truthy (Some tok) \<longrightarrow>
      (jwt_verify env tok = Inl (Error ''JsonWebTokenError'') \<longrightarrow>
         protect env st req = Denied (Status 401 (ErrorMsg ''Invalid token.''))) \<and>
      (jwt_verify env tok = Inl (Error ''TokenExpiredError'') \<longrightarrow>
         protect env st req = Denied (Status 401 (ErrorMsg ''Token expired.''))) \<and>
      (\<forall>decoded. jwt_verify env tok = Inr decoded \<longrightarrow>
         (User_findById env st (get_prop decoded ''id'') = Inr None \<longrightarrow>
            protect env st req = Denied (Status 401 (ErrorMsg ''Invalid token. User not found.''))) \<and>
         (\<forall>user. User_findById env st (get_prop decoded ''id'') = Inr (Some user) \<longrightarrow>
            protect env st req = Granted (user(''password'' := None)))) \<and>
      (\<forall>e. err_name e \<noteq> ''JsonWebTokenError'' \<longrightarrow> err_name e \<noteq> ''TokenExpiredError'' \<longrightarrow>
         (jwt_verify env tok = Inl e \<or>
          (\<exists>decoded. jwt_verify env tok = Inr decoded \<and>
                     User_findById env st (get_prop decoded ''id'') = Inl e)) \<longrightarrow>
         protect env st req = Denied (Status 500 (ErrorMsg ''Server error during authentication.''))))"
proof -
  have a: "\<not> truthy (request_token req) \<longrightarrow>
      protect env st req = Denied (Status 401 (ErrorMsg ''Access denied. No token provided.''))"
    by (simp add: protect_no_token)
  have a0: "\<not> truthy (cookie_token req) \<longrightarrow> authorization req = None \<longrightarrow>
      protect env st req = Denied (Status 401 (ErrorMsg ''Access denied. No token provided.''))"
    by (simp add: protect_no_token request_token_none)
  have b: "truthy (cookie_token req) \<longrightarrow> request_token req = cookie_token req"
    by (simp add: request_token_cookie)
  have c: "(jwt_verify env tok = Inl (Error ''JsonWebTokenError'') \<longrightarrow>
         protect env st req = Denied (Status 401 (ErrorMsg ''Invalid token.''))) \<and>
      (jwt_verify env tok = Inl (Error ''TokenExpiredError'') \<longrightarrow>
         protect env st req = Denied (Status 401 (ErrorMsg ''Token expired.''))) \<and>
      (\<forall>decoded. jwt_verify env tok = Inr decoded \<longrightarrow>
         (User_findById env st (get_prop decoded ''id'') = Inr None \<longrightarrow>
            protect env st req = Denied (Status 401 (ErrorMsg ''Invalid token. User not found.''))) \<and>
         (\<forall>user. User_findById env st (get_prop decoded ''id'') = Inr (Some user) \<longrightarrow>
            protect env st req = Granted (user(''password'' := None)))) \<and>
      (\<forall>e. err_name e \<noteq> ''JsonWebTokenError'' \<longrightarrow> err_name e \<noteq> ''TokenExpiredError'' \<longrightarrow>
         (jwt_verify env tok = Inl e \<or>
          (\<exists>decoded. jwt_verify env tok = Inr decoded \<and>
                     User_findById env st (get_prop decoded ''id'') = Inl e)) \<longrightarrow>
         protect env st req = Denied (Status 500 (ErrorMsg ''Server error during authentication.'')))"
    if t: "request_token req = Some tok" "truthy (Some tok)" for tok
  proof -
    note p = protect_token[OF t, of env st]
    have 1: "jwt_verify env tok = Inl (Error ''JsonWebTokenError'') \<longrightarrow>
         protect env st req = Denied (Status 401 (ErrorMsg ''Invalid token.''))"
      by (simp add: p auth_failure_def)
    have 2: "jwt_verify env tok = Inl (Error ''TokenExpiredError'') \<longrightarrow>
         protect env st req = Denied (Status 401 (ErrorMsg ''Token expired.''))"
      by (simp add: p auth_failure_def)
    have 3: "\<forall>decoded. jwt_verify env tok = Inr decoded \<longrightarrow>
         (User_findById env st (get_prop decoded ''id'') = Inr None \<longrightarrow>
            protect env st req = Denied (Status 401 (ErrorMsg ''Invalid token. User not found.''))) \<and>
         (\<forall>user. User_findById env st (get_prop decoded ''id'') = Inr (Some user) \<longrightarrow>
            protect env st req = Granted (user(''password'' := None)))"
      by (simp add: p)
    have 4: "\<forall>e. err_name e \<noteq> ''JsonWebTokenError'' \<longrightarrow> err_name e \<noteq> ''TokenExpiredError'' \<longrightarrow>
         (jwt_verify env tok = Inl e \<or>
          (\<exists>decoded. jwt_verify env tok = Inr decoded \<and>
                     User_findById env st (get_prop decoded ''id'') = Inl e)) \<longrightarrow>
         protect env st req = Denied (Status 500 (ErrorMsg ''Server error during authentication.''))"
      by (auto simp: p auth_failure_other)
    from 1 2 3 4 show ?thesis by blast
  qed
  have d: "distinct [''Access denied. No token provided.'', ''Invalid token.'', ''Token expired.'',
             ''Invalid token. User not found.'', ''Server error during authentication.'']"
    by simp
  from d a0 a b c show ?thesis by blast
qed


lemma example_tokens:
  "request_token (with_token None None) = None"
  "request_token (with_token (Some (JStr ''bad'')) None) = Some (JStr ''bad'')"
  "request_token (with_token (Some (JStr ''old'')) None) = Some (JStr ''old'')"
  "request_token (with_token (Some (JStr ''gone'')) None) = Some (JStr ''gone'')"
  "request_token (with_token (Some (JStr ''early'')) None) = Some (JStr ''early'')"
  "request_token (with_token (Some (JStr ''good'')) (Some ''Bearer bad'')) = Some (JStr ''good'')"
  "request_token (with_token None (Some ''Bearer good'')) = Some (JStr ''good'')"
  by (simp_all add: request_token_def with_token_def)

lemma example_lookup:
  "User_findById example_env example_store (get_prop (JObj [(''id'', JStr ''u1'')]) ''id'')
     = Inr (Some example_user)"
  "User_findById example_env example_store (get_prop (JObj [(''id'', JStr ''u9'')]) ''id'')
     = Inr None"
  by (simp_all add: example_env_def example_findById_def example_store_def example_user_def)

theorem protect_outcomes_witness:
  "protect example_env example_store (with_token None None)
     = Denied (Status 401 (ErrorMsg ''Access denied. No token provided.'')) \<and>
   protect example_env example_store (with_token (Some (JStr ''bad'')) None)
     = Denied (Status 401 (ErrorMsg ''Invalid token.'')) \<and>
   protect example_env example_store (with_token (Some (JStr ''old'')) None)
     = Denied (Status 401 (ErrorMsg ''Token expired.'')) \<and>
   protect example_env example_store (with_token (Some (JStr ''gone'')) None)
     = Denied (Status 401 (ErrorMsg ''Invalid token. User not found.'')) \<and>
   protect example_env example_store (with_token (Some (JStr ''early'')) None)
     = Denied (Status 500 (ErrorMsg ''Server error during authentication.'')) \<and>
   protect example_env example_store (with_token (Some (JStr ''good'')) (Some ''Bearer bad''))
     = Granted (example_user(''password'' := None)) \<and>
   protect example_env example_store (with_token None (Some ''Bearer good''))
     = Granted (example_user(''password'' := None))"
proof -
  have v: "jwt_verify example_env (JStr ''bad'') = Inl (Error ''JsonWebTokenError'')"
          "jwt_verify example_env (JStr ''old'') = Inl (Error ''TokenExpiredError'')"
          "jwt_verify example_env (JStr ''early'') = Inl (Error ''NotBeforeError'')"
          "jwt_verify example_env (JStr ''gone'') = Inr (JObj [(''id'', JStr ''u9'')])"
          "jwt_verify example_env (JStr ''good'') = Inr (JObj [(''id'', JStr ''u1'')])"
    by (simp_all add: example_env_def example_verify_def)
  have n: "err_name (Error ''NotBeforeError'') \<noteq> ''JsonWebTokenError''"
          "err_name (Error ''NotBeforeError'') \<noteq> ''TokenExpiredError''"
    by simp_all
  have 1: "protect example_env example_store (with_token None None)
     = Denied (Status 401 (ErrorMsg ''Access denied. No token provided.''))"
    using protect_outcomes[of "with_token None None" example_env example_store]
    by (simp add: example_tokens)
  have 2: "protect example_env example_store (with_token (Some (JStr ''bad'')) None)
     = Denied (Status 401 (ErrorMsg ''Invalid token.''))"
    using protect_outcomes[of "with_token (Some (JStr ''bad'')) None" example_env example_store] v
    by (simp add: example_tokens)
  have 3: "protect example_env example_store (with_token (Some (JStr ''old'')) None)
     = Denied (Status 401 (ErrorMsg ''Token expired.''))"
    using protect_outcomes[of "with_token (Some (JStr ''old'')) None" example_env example_store] v
    by (simp add: example_tokens)
  have 4: "protect example_env example_store (with_token (Some (JStr ''gone'')) None)
     = Denied (Status 401 (ErrorMsg ''Invalid token. User not found.''))"
    using protect_outcomes[of "with_token (Some (JStr ''gone'')) None" example_env example_store]
      v example_lookup
    by (simp add: example_tokens)
  have 5: "protect example_env example_store (with_token (Some (JStr ''early'')) None)
     = Denied (Status 500 (ErrorMsg ''Server error during authentication.''))"
    using protect_outcomes[of "with_token (Some (JStr ''early'')) None" example_env example_store]
      v n
    by (simp add: example_tokens)
  have 6: "protect example_env example_store (with_token (Some (JStr ''good'')) (Some ''Bearer bad''))
     = Granted (example_user(''password'' := None))"
    using protect_outcomes[of "with_token (Some (JStr ''good'')) (Some ''Bearer bad'')"
        example_env example_store] v example_lookup
    by (simp add: example_tokens)
  have 7: "protect example_env example_store (with_token None (Some ''Bearer good''))
     = Granted (example_user(''password'' := None))"
    using protect_outcomes[of "with_token None (Some ''Bearer good'')" example_env example_store]
      v example_lookup
    by (simp add: example_tokens)
  from 1 2 3 4 5 6 7 show ?thesis by blast
qed


lemma request_token_path: "request_token (req\<lparr>h_path := p\<rparr>) = request_token req"
  by (simp add: request_token_def)

lemma protect_path: "protect env st (req\<lparr>h_path := p\<rparr>) = protect env st req"
  by (simp add: protect_def request_token_path)

lemma leads_dispatch:
  "dispatch env st req None leads_router =
     (case protect env st req of
        Denied r \<Rightarrow> Replied r
      | Granted usr \<Rightarrow> dispatch env st req (Some usr) (tl leads_router))"
  by (simp add: leads_router_def split: guard.splits)

lemma leads_routes:
  "dispatch env st req (Some usr) (tl leads_router) = Ran h u \<Longrightarrow>
   u = Some usr \<and> h \<in> set lead_handlers"
  by (auto simp: leads_router_def lead_handlers_def split: if_splits)

lemma auth_routes:
  "dispatch env st req None auth_router = Ran h u \<Longrightarrow> h \<notin> set lead_handlers"
  by (auto simp: auth_router_def lead_handlers_def split: if_splits guard.splits)

lemma app_leads:
  "h_path req = ''api'' # ''leads'' # rest \<Longrightarrow>
   mounted env st req = dispatch env st (req\<lparr>h_path := rest\<rparr>) None leads_router"
  by (simp add: mounted_def)

lemma app_auth:
  "h_path req = ''api'' # ''auth'' # rest \<Longrightarrow>
   mounted env st req = dispatch env st (req\<lparr>h_path := rest\<rparr>) None auth_router"
  by (simp add: mounted_def)

lemma mounted_lead_handler:
  assumes "mounted env st req = Ran h u" and "h \<in> set lead_handlers"
  shows "\<exists>usr. protect env st req = Granted usr \<and> u = Some usr"
proof -
  from assms(1) obtain a b rest where p: "h_path req = a # b # rest"
    by (auto simp: mounted_def split: list.splits)
  show ?thesis
  proof (cases "a = ''api'' \<and> b = ''auth''")
    case True
    with assms(1) p have "dispatch env st (req\<lparr>h_path := rest\<rparr>) None auth_router = Ran h u"
      by (simp add: mounted_def)
    from auth_routes[OF this] assms(2) show ?thesis by simp
  next
    case False
    with assms(1) p have l: "a = ''api'' \<and> b = ''leads''"
      by (auto simp: mounted_def split: if_splits)
    with assms(1) p False
    have d: "dispatch env st (req\<lparr>h_path := rest\<rparr>) None leads_router = Ran h u"
      by (simp add: mounted_def)
    show ?thesis
    proof (cases "protect env st req")
      case (Denied r)
      with d show ?thesis by (simp add: leads_dispatch protect_path)
    next
      case (Granted usr)
      with d have "dispatch env st (req\<lparr>h_path := rest\<rparr>) (Some usr) (tl leads_router) = Ran h u"
        by (simp add: leads_dispatch protect_path)
      from leads_routes[OF this] Granted show ?thesis by simp
    qed
  qed
qed

lemma app_Ran:
  "app env st req = Ran h u \<Longrightarrow> h \<noteq> Health \<Longrightarrow> mounted env st req = Ran h u"
  by (auto simp: app_def split: if_splits outcome.splits)

text \<open>
  C5. Whenever the application runs a handler of the lead routes, the guard has
  granted the request and the handler has its user; a request under
  \<^verbatim>\<open>/api/leads\<close> that the guard denies gets the guard's reply and no handler runs.
  \<^verbatim>\<open>POST /api/auth/register\<close>, \<^verbatim>\<open>login\<close> and \<^verbatim>\<open>logout\<close> run their
  handlers without the guard being consulted.
\<close>

theorem lead_routes_behind_guard:
  "(\<forall>h u. app env st req = Ran h u \<longrightarrow> h \<in> set lead_handlers \<longrightarrow>
      (\<exists>usr. protect env st req = Granted usr \<and> u = Some usr)) \<and>
   (\<forall>r rest. protect env st req = Denied r \<longrightarrow> h_path req = ''api'' # ''leads'' # rest \<longrightarrow>
      app env st req = Replied r) \<and>
   (h_method req = ''POST'' \<longrightarrow>
      (h_path req = [''api'', ''auth'', ''register''] \<longrightarrow> app env st req = Ran Register None) \<and>
      (h_path req = [''api'', ''auth'', ''login''] \<longrightarrow> app env st req = Ran Login None) \<and>
      (h_path req = [''api'', ''auth'', ''logout''] \<longrightarrow> app env st req = Ran Logout None))"
proof -
  have a: "\<exists>usr. protect env st req = Granted usr \<and> u = Some usr"
    if "app env st req = Ran h u" "h \<in> set lead_handlers" for h u
  proof -
    from that(2) have "h \<noteq> Health" by (auto simp: lead_handlers_def)
    from app_Ran[OF that(1) this] that(2) show ?thesis by (rule mounted_lead_handler)
  qed
  have b: "app env st req = Replied r"
    if "protect env st req = Denied r" "h_path req = ''api'' # ''leads'' # rest" for r rest
    using that by (simp add: app_def app_leads leads_dispatch protect_path)
  have c: "h_method req = ''POST'' \<longrightarrow>
      (h_path req = [''api'', ''auth'', ''register''] \<longrightarrow> app env st req = Ran Register None) \<and>
      (h_path req = [''api'', ''auth'', ''login''] \<longrightarrow> app env st req = Ran Login None) \<and>
      (h_path req = [''api'', ''auth'', ''logout''] \<longrightarrow> app env st req = Ran Logout None)"
    by (simp add: app_def app_auth auth_router_def)
  from a b c show ?thesis by blast
qed


lemma example_granted:
  "protect example_env example_store (example_http meth p (Some (JStr ''good'')))
     = Granted (example_user(''password'' := None))"
  by (simp add: protect_def request_token_def example_http_def example_env_def example_verify_def
        example_findById_def example_store_def example_user_def)

lemma example_denied:
  "protect example_env example_store (example_http meth p None)
     = Denied (Status 401 (ErrorMsg ''Access denied. No token provided.''))"
  by (simp add: protect_def request_token_def example_http_def)

theorem lead_routes_behind_guard_witness:
  "protect example_env example_store (example_http ''GET'' [''api'', ''leads''] None)
     = Denied (Status 401 (ErrorMsg ''Access denied. No token provided.'')) \<and>
   app example_env example_store (example_http ''GET'' [''api'', ''leads''] None)
     = Replied (Status 401 (ErrorMsg ''Access denied. No token provided.'')) \<and>
   app example_env example_store (example_http ''POST'' [''api'', ''auth'', ''register''] None)
     = Ran Register None \<and>
   app example_env example_store (example_http ''POST'' [''api'', ''auth'', ''login''] None)
     = Ran Login None \<and>
   app example_env example_store (example_http ''POST'' [''api'', ''auth'', ''logout''] None)
     = Ran Logout None \<and>
   List_leads \<in> set lead_handlers \<and>
   app example_env example_store (example_http ''GET'' [''api'', ''leads''] (Some (JStr ''good'')))
     = Ran List_leads (Some (example_user(''password'' := None))) \<and>
   (\<exists>usr. protect example_env example_store
            (example_http ''GET'' [''api'', ''leads''] (Some (JStr ''good''))) = Granted usr)"
proof -
  let ?anon = "example_http ''GET'' [''api'', ''leads''] None"
  let ?user = "example_http ''GET'' [''api'', ''leads''] (Some (JStr ''good''))"
  have p: "h_path ?anon = ''api'' # ''leads'' # []" by (simp add: example_http_def)
  from lead_routes_behind_guard[of example_env example_store ?anon] example_denied p
  have 1: "app example_env example_store ?anon
     = Replied (Status 401 (ErrorMsg ''Access denied. No token provided.''))"
    by blast
  have 2: "app example_env example_store (example_http ''POST'' [''api'', ''auth'', ''register''] None)
     = Ran Register None"
    using lead_routes_behind_guard[of example_env example_store
        "example_http ''POST'' [''api'', ''auth'', ''register''] None"]
    by (simp add: example_http_def)
  have 3: "app example_env example_store (example_http ''POST'' [''api'', ''auth'', ''login''] None)
     = Ran Login None"
    using lead_routes_behind_guard[of example_env example_store
        "example_http ''POST'' [''api'', ''auth'', ''login''] None"]
    by (simp add: example_http_def)
  have 4: "app example_env example_store (example_http ''POST'' [''api'', ''auth'', ''logout''] None)
     = Ran Logout None"
    using lead_routes_behind_guard[of example_env example_store
        "example_http ''POST'' [''api'', ''auth'', ''logout''] None"]
    by (simp add: example_http_def)
  have 5: "List_leads \<in> set lead_handlers" by (simp add: lead_handlers_def)
  have 6: "app example_env example_store ?user
     = Ran List_leads (Some (example_user(''password'' := None)))"
  proof -
    have "mounted example_env example_store ?user
            = dispatch example_env example_store (?user\<lparr>h_path := []\<rparr>) None leads_router"
      by (rule app_leads) (simp add: example_http_def)
    also have "\<dots> = dispatch example_env example_store (?user\<lparr>h_path := []\<rparr>)
                        (Some (example_user(''password'' := None))) (tl leads_router)"
      by (simp add: leads_dispatch protect_path example_granted)
    also have "\<dots> = Ran List_leads (Some (example_user(''password'' := None)))"
      by (simp add: leads_router_def example_http_def)
    finally show ?thesis by (simp add: app_def example_http_def)
  qed
  from lead_routes_behind_guard[of example_env example_store ?user] 5 6
  have 7: "\<exists>usr. protect example_env example_store ?user = Granted usr" by blast
  from example_denied 1 2 3 4 5 6 7 show ?thesis by blast
qed

lemma ms_7d: "ms ''7d'' = Some (7 * 24 * 60 * 60 * 1000)"
  by (simp add: ms_def is_digit_def unit_ms_def)

lemma sign_payload_7d:
  "exp (sign_payload now uid ''7d'') = Some (iat (sign_payload now uid ''7d'') + 7 * 24 * 60 * 60)"
proof -
  have "\<lfloor>(of_int (now div 1000) :: rat) + of_int (7 * 24 * 60 * 60 * 1000) / 1000\<rfloor>
          = now div 1000 + 7 * 24 * 60 * 60"
  proof -
    have "(of_int (now div 1000) :: rat) + of_int (7 * 24 * 60 * 60 * 1000) / 1000
            = of_int (now div 1000 + 7 * 24 * 60 * 60)"
      by simp
    then show ?thesis by (simp only: floor_of_int)
  qed
  then show ?thesis by (simp add: sign_payload_def timespan_def ms_7d Let_def)
qed

lemma register_cookie:
  assumes "register env now st req = (st', rep, SetCookie name tok opts)"
  shows "\<exists>uid. generateToken env now uid = Inr tok \<and> maxAge opts = Some (7 * 24 * 60 * 60 * 1000)"
  using assms
  by (auto simp: register_def Let_def split: if_splits sum.splits option.splits prod.splits)

lemma login_cookie:
  assumes "login env now st req = (rep, SetCookie name tok opts)"
  shows "\<exists>uid. generateToken env now uid = Inr tok \<and> maxAge opts = Some (7 * 24 * 60 * 60 * 1000)"
  using assms
  by (auto simp: login_def Let_def split: if_splits sum.splits option.splits prod.splits)

text \<open>
  C10. Whenever \<^verbatim>\<open>register\<close> or \<^verbatim>\<open>login\<close> sets the session cookie, its value is
  the token of \<^verbatim>\<open>generateToken\<close>, its \<^verbatim>\<open>maxAge\<close> is seven days in milliseconds,
  and the token's \<^verbatim>\<open>exp\<close> is seven days in seconds after its \<^verbatim>\<open>iat\<close>: the two
  lifetimes are equal. Counted from the same instant, the token expires with the
  cookie or less than a second before it, \<^verbatim>\<open>iat\<close> being in whole seconds.
\<close>

theorem cookie_and_token_lifetimes:
  "\<forall>st' rep name tok opts.
      register env now st req = (st', rep, SetCookie name tok opts) \<or>
      login env now st req = (rep, SetCookie name tok opts) \<longrightarrow>
      (\<exists>uid e. generateToken env now uid = Inr tok \<and>
               generateToken env now uid = jwt_sign env (sign_payload now uid ''7d'') \<and>
               maxAge opts = Some (7 * day_ms) \<and>
               exp (sign_payload now uid ''7d'') = Some e \<and>
               (e - iat (sign_payload now uid ''7d'')) * 1000 = 7 * day_ms \<and>
               1000 * e \<le> now + 7 * day_ms \<and> now + 7 * day_ms < 1000 * e + 1000)"
proof (intro allI impI)
  fix st' rep name tok opts
  assume "register env now st req = (st', rep, SetCookie name tok opts) \<or>
      login env now st req = (rep, SetCookie name tok opts)"
  then obtain uid where g: "generateToken env now uid = Inr tok"
    and m: "maxAge opts = Some (7 * 24 * 60 * 60 * 1000)"
    using register_cookie login_cookie by blast
  let ?e = "now div 1000 + 7 * 24 * 60 * 60"
  have i: "iat (sign_payload now uid ''7d'') = now div 1000"
    by (simp add: sign_payload_def Let_def)
  from sign_payload_7d[of now uid] i
  have e: "exp (sign_payload now uid ''7d'') = Some ?e" by simp
  have b: "1000 * ?e \<le> now + 7 * day_ms \<and> now + 7 * day_ms < 1000 * ?e + 1000"
    by (simp add: day_ms_def) presburger
  from g m i e b show "\<exists>uid e. generateToken env now uid = Inr tok \<and>
               generateToken env now uid = jwt_sign env (sign_payload now uid ''7d'') \<and>
               maxAge opts = Some (7 * day_ms) \<and>
               exp (sign_payload now uid ''7d'') = Some e \<and>
               (e - iat (sign_payload now uid ''7d'')) * 1000 = 7 * day_ms \<and>
               1000 * e \<le> now + 7 * day_ms \<and> now + 7 * day_ms < 1000 * e + 1000"
    by (intro exI[of _ uid] exI[of _ ?e]) (simp add: generateToken_def day_ms_def)
qed

lemma example_register_reply:
  "\<exists>st' rep opts. register example_env 1700000000123 example_store example_register
      = (st', rep, SetCookie ''token'' ''good'' opts)"
  by (simp add: register_def example_register_def example_env_def example_save_def
        example_store_def example_user_def generateToken_def Let_def)

lemma example_login_reply:
  "\<exists>rep opts. login example_env 1700000000123 example_store example_login
      = (rep, SetCookie ''token'' ''good'' opts)"
  by (simp add: login_def example_login_def example_env_def
        example_store_def example_user_def generateToken_def Let_def)

theorem cookie_and_token_lifetimes_witness:
  "(\<exists>st' rep opts. register example_env 1700000000123 example_store example_register
      = (st', rep, SetCookie ''token'' ''good'' opts) \<and> maxAge opts = Some 604800000) \<and>
   (\<exists>rep opts. login example_env 1700000000123 example_store example_login
      = (rep, SetCookie ''token'' ''good'' opts) \<and> maxAge opts = Some 604800000) \<and>
   exp (sign_payload 1700000000123 (Oid ''u2'') ''7d'') = Some 1700604800 \<and>
   iat (sign_payload 1700000000123 (Oid ''u2'') ''7d'') = 1700000000"
proof -
  from example_register_reply obtain st' rep opts where
    r: "register example_env 1700000000123 example_store example_register
      = (st', rep, SetCookie ''token'' ''good'' opts)" by blast
  from example_login_reply obtain rep' opts' where
    l: "login example_env 1700000000123 example_store example_login
      = (rep', SetCookie ''token'' ''good'' opts')" by blast
  from cookie_and_token_lifetimes[of example_env 1700000000123 example_store example_register] r
  have m: "maxAge opts = Some (7 * day_ms)" by blast
  from cookie_and_token_lifetimes[of example_env 1700000000123 example_store example_login] l
  have m': "maxAge opts' = Some (7 * day_ms)" by blast
  have d: "7 * day_ms = 604800000" by (simp add: day_ms_def)
  have e: "exp (sign_payload 1700000000123 (Oid ''u2'') ''7d'') = Some 1700604800"
          "iat (sign_payload 1700000000123 (Oid ''u2'') ''7d'') = 1700000000"
    using sign_payload_7d[of 1700000000123 "Oid ''u2''"]
    by (simp_all add: sign_payload_def Let_def)
  from r l m m' d e show ?thesis by auto
qed

end
